theory Spec2Isabelle
  imports Main
begin

section \<open>The functions of Go's package strings that the program calls\<close>

text \<open>
  A Go string is a sequence of bytes, here a \<^typ>\<open>string\<close>. The program calls
  \<^verbatim>\<open>strings.Split\<close>, \<^verbatim>\<open>strings.HasPrefix\<close>, \<^verbatim>\<open>strings.Replace\<close>,
  \<^verbatim>\<open>strings.Join\<close> and \<^verbatim>\<open>strings.ToLower\<close>. They follow the standard library:
  \<^verbatim>\<open>Index\<close> is the position of the first occurrence, \<^verbatim>\<open>Split\<close> cuts at the
  successive first occurrences of the separator and always keeps the rest as the last
  piece. With an empty separator (or an empty \<open>old\<close> in \<^verbatim>\<open>Count\<close> and
  \<^verbatim>\<open>Replace\<close>) the library works on UTF-8 sequences; the model works on bytes there,
  and no call of the program passes an empty one. \<^verbatim>\<open>ToLower\<close> is the library's
  function on ASCII strings only: it lowers the letters A to Z and keeps every other
  byte, where the library also lowers the letters outside ASCII by the Unicode tables.
  The program lowers the kind of the object with it, for the title link of the payload;
  nothing below depends on that link.
\<close>

definition HasPrefix :: "string \<Rightarrow> string \<Rightarrow> bool" where
  "HasPrefix s p = (length p \<le> length s \<and> take (length p) s = p)"

fun Index :: "string \<Rightarrow> string \<Rightarrow> nat option" where
  "Index [] sep = (if sep = [] then Some 0 else None)"
| "Index (c # cs) sep =
     (if HasPrefix (c # cs) sep then Some 0 else map_option Suc (Index cs sep))"

lemma Index_bound: "Index s sep = Some m \<Longrightarrow> m + length sep \<le> length s"
proof (induction s arbitrary: m)
  case Nil
  then show ?case by (simp split: if_splits)
next
  case (Cons c cs)
  show ?case
  proof (cases "HasPrefix (c # cs) sep")
    case True
    with Cons.prems show ?thesis by (simp add: HasPrefix_def)
  next
    case False
    with Cons.prems obtain k where "Index cs sep = Some k" "m = Suc k" by auto
    with Cons.IH show ?thesis by fastforce
  qed
qed

function genSplit :: "string \<Rightarrow> string \<Rightarrow> string list" where
  "genSplit s sep =
     (if sep = [] then map (\<lambda>c. [c]) s
      else case Index s sep of
             None \<Rightarrow> [s]
           | Some m \<Rightarrow> take m s # genSplit (drop (m + length sep) s) sep)"
  by pat_completeness auto
termination
proof (relation "measure (\<lambda>(s, sep). length s)")
  show "wf (measure (\<lambda>(s, sep). length s))" by simp
next
  fix s sep :: string and m :: nat
  assume "sep \<noteq> []" and "Index s sep = Some m"
  then have "m + length sep \<le> length s" and "0 < length sep"
    by (simp_all add: Index_bound)
  then have "length (drop (m + length sep) s) < length s"
    unfolding length_drop by linarith
  then show "((drop (m + length sep) s, sep), (s, sep)) \<in> measure (\<lambda>(s, sep). length s)"
    by simp
qed

declare genSplit.simps [simp del]

definition Split :: "string \<Rightarrow> string \<Rightarrow> string list" where
  "Split s sep = genSplit s sep"

function Count :: "string \<Rightarrow> string \<Rightarrow> nat" where
  "Count s substr =
     (if substr = [] then length s + 1
      else case Index s substr of
             None \<Rightarrow> 0
           | Some i \<Rightarrow> Suc (Count (drop (i + length substr) s) substr))"
  by pat_completeness auto
termination
proof (relation "measure (\<lambda>(s, substr). length s)")
  show "wf (measure (\<lambda>(s, substr). length s))" by simp
next
  fix s substr :: string and i :: nat
  assume "substr \<noteq> []" and "Index s substr = Some i"
  then have "i + length substr \<le> length s" and "0 < length substr"
    by (simp_all add: Index_bound)
  then have "length (drop (i + length substr) s) < length s"
    unfolding length_drop by linarith
  then show "((drop (i + length substr) s, substr), (s, substr))
      \<in> measure (\<lambda>(s, substr). length s)"
    by simp
qed

declare Count.simps [simp del]

text \<open>
  \<^verbatim>\<open>Replace(s, old, new, n)\<close> replaces the first \<open>n\<close> non-overlapping occurrences of
  \<open>old\<close>, all of them when \<open>n < 0\<close>. The loop of the library runs
  \<open>min n (Count s old)\<close> times; \<open>replaceLoop\<close> is that loop, counting down.
\<close>

fun replaceLoop :: "string \<Rightarrow> string \<Rightarrow> string \<Rightarrow> nat \<Rightarrow> string" where
  "replaceLoop s old new 0 = s"
| "replaceLoop s old new (Suc k) =
     (case Index s old of
        None \<Rightarrow> s
      | Some j \<Rightarrow> take j s @ new @ replaceLoop (drop (j + length old) s) old new k)"

definition Replace :: "string \<Rightarrow> string \<Rightarrow> string \<Rightarrow> int \<Rightarrow> string" where
  "Replace s old new n =
     (if old = new \<or> n = 0 then s
      else let m = Count s old in
        if m = 0 then s
        else if old = [] then
          (let k = (if n < 0 \<or> int m < n then m else nat n)
           in new @ concat (map (\<lambda>c. c # new) (take (k - 1) s)) @ drop (k - 1) s)
        else replaceLoop s old new (if n < 0 \<or> int m < n then m else nat n))"

fun Join :: "string list \<Rightarrow> string \<Rightarrow> string" where
  "Join [] sep = []"
| "Join [x] sep = x"
| "Join (x # y # ys) sep = x @ sep @ Join (y # ys) sep"

definition ToLower :: "string \<Rightarrow> string" where
  "ToLower s =
     map (\<lambda>c. let n = (of_char c :: nat)
               in if 65 \<le> n \<and> n \<le> 90 then char_of (n + 32) else c) s"

section \<open>Events and the fingerprint\<close>

text \<open>
  The fields of \<^verbatim>\<open>v1.Event\<close> that the program reads. \<open>FirstTimestamp\<close> and every
  other instant are nanoseconds since the epoch.
\<close>

record ObjectReference =
  Kind :: string
  Namespace :: string
  Name :: string

record Event =
  InvolvedObject :: ObjectReference
  Reason :: string
  Message :: string
  FirstTimestamp :: int

text \<open>
  What a goroutine can die of: an index out of range, a nil pointer dereference, a failed
  type assertion, and \<^verbatim>\<open>panic(v)\<close> called with a value.
\<close>

datatype panic = IndexOutOfRange | NilDereference | TypeAssertion | Panicked string

text \<open>
  \<^verbatim>\<open>s[0]\<close> on a slice: a run-time panic on the empty slice.
\<close>

definition first :: "string list \<Rightarrow> panic + string" where
  "first s = (case s of [] \<Rightarrow> Inl IndexOutOfRange | x # _ \<Rightarrow> Inr x)"

text \<open>
  \<open>msgc\<close> is the slice of that name that \<^verbatim>\<open>buildCachedEvent\<close> fills before joining
  it: the namespace, the first piece of the name, the message component.
\<close>

definition msgc :: "Event \<Rightarrow> panic + string list" where
  "msgc event =
     (case first (Split (Name (InvolvedObject event)) ''-'') of
        Inl p \<Rightarrow> Inl p
      | Inr s0 \<Rightarrow>
          if HasPrefix (Message event) ''Readiness'' \<or> HasPrefix (Message event) ''Liveness''
          then (case first (Split (Message event) '': Get http://10.'') of
                  Inl p \<Rightarrow> Inl p
                | Inr m0 \<Rightarrow>
                    Inr [Namespace (InvolvedObject event), s0, Replace m0 '' '' ''_'' (- 1)])
          else Inr [Namespace (InvolvedObject event), s0, Message event])"

definition buildCachedEvent :: "Event \<Rightarrow> panic + string" where
  "buildCachedEvent event =
     (case msgc event of Inl p \<Rightarrow> Inl p | Inr xs \<Rightarrow> Inr (Join xs ''_''))"

section \<open>The cache\<close>

text \<open>
  The package \<^verbatim>\<open>go-cache\<close>, as far as the program uses it: a map from keys to items,
  each with the instant it expires at (\<open>0\<close>: never). \<open>Get\<close> and \<open>Set\<close> read the
  clock; the instant read is their last argument. The items hold values of any type; the
  program only stores strings. \<open>New\<close> keeps the cleanup interval; with a positive
  one the library starts a janitor goroutine that calls \<open>DeleteExpired\<close> once per
  interval, beside the program. The runs of the watch loop below do not interleave the
  janitor, so the map of a run may still hold an expired item that the janitor has
  removed by then. The program reads the cache with \<open>Get\<close> only, and \<open>Get\<close>
  reports an expired item as absent, removed or not.
\<close>

definition Second :: int where
  "Second = 1000000000"

definition Minute :: int where
  "Minute = 60 * Second"

definition DefaultExpiration :: int where
  "DefaultExpiration = 0"

record Item =
  Object :: string
  Expiration :: int

record Cache =
  defaultExpiration :: int
  cleanupInterval :: int
  items :: "string \<rightharpoonup> Item"

definition New :: "int \<Rightarrow> int \<Rightarrow> Cache" where
  "New de ci =
     \<lparr>defaultExpiration = (if de = 0 then - 1 else de), cleanupInterval = ci,
      items = Map.empty\<rparr>"

definition Get :: "Cache \<Rightarrow> string \<Rightarrow> int \<Rightarrow> string option" where
  "Get c k now =
     (case items c k of
        None \<Rightarrow> None
      | Some item \<Rightarrow>
          if Expiration item > 0 \<and> now > Expiration item then None
          else Some (Object item))"

definition Set :: "Cache \<Rightarrow> string \<Rightarrow> string \<Rightarrow> int \<Rightarrow> int \<Rightarrow> Cache" where
  "Set c k x d now =
     (let d' = (if d = DefaultExpiration then defaultExpiration c else d);
          e = (if d' > 0 then now + d' else 0)
      in c\<lparr>items := (items c)(k \<mapsto> \<lparr>Object = x, Expiration = e\<rparr>)\<rparr>)"

definition DeleteExpired :: "Cache \<Rightarrow> int \<Rightarrow> Cache" where
  "DeleteExpired c now =
     c\<lparr>items := (\<lambda>k. case items c k of
                        None \<Rightarrow> None
                      | Some v \<Rightarrow>
                          if Expiration v > 0 \<and> now > Expiration v then None
                          else Some v)\<rparr>"

definition cachesvr :: Cache where
  "cachesvr = New (1 * Minute) (2 * Minute)"

section \<open>The notifier\<close>

record SlackField =
  Title :: string
  Value :: string
  Short :: bool

record SlackAttachment =
  Color :: string
  AuthorName :: string
  AuthorLink :: string
  Title :: string
  TitleLink :: string
  Text :: string
  Fields :: "SlackField list"

record SlackMessage =
  Attachments :: "SlackAttachment list"

text \<open>
  The environment variables the program reads, and the outcomes of the three library calls
  of \<^verbatim>\<open>notifySlack\<close>: \<^verbatim>\<open>json.Marshal\<close>, \<^verbatim>\<open>http.NewRequest\<close> and
  \<^verbatim>\<open>client.Do\<close>, each either fine (\<open>None\<close>) or an error with its text.
\<close>

record Environ =
  OPENSHIFT_CONSOLE_URL :: string
  SLACK_WEBHOOK_URL :: string

record Http =
  marshalErr :: "string option"
  newRequestErr :: "string option"
  doErr :: "string option"

text \<open>
  What the program does to the outside, in the order it does it. \<open>Build\<close> and
  \<open>Notify\<close> record the calls of \<^verbatim>\<open>buildCachedEvent\<close> and \<^verbatim>\<open>notifySlack\<close>;
  \<open>HttpPost\<close> is the request handed to \<^verbatim>\<open>client.Do\<close>. The lines written with
  \<^verbatim>\<open>log.Printf\<close> are left out.
\<close>

datatype effect =
    CacheGet string
  | CacheSet string string
  | Build Event
  | Notify Event
  | HttpPost string SlackMessage
  | Println string
  | Watch string
  | Sleep int

definition resourceUrl :: "Environ \<Rightarrow> Event \<Rightarrow> string" where
  "resourceUrl env event =
     OPENSHIFT_CONSOLE_URL env @ ''/project/'' @ Namespace (InvolvedObject event)
       @ ''/browse/'' @ ToLower (Kind (InvolvedObject event)) @ ''s/''
       @ Name (InvolvedObject event)"

definition monitoringUrl :: "Environ \<Rightarrow> Event \<Rightarrow> string" where
  "monitoringUrl env event =
     OPENSHIFT_CONSOLE_URL env @ ''project/'' @ Namespace (InvolvedObject event)
       @ ''/monitoring''"

text \<open>
  \<^verbatim>\<open>notifySlack\<close>. A failed \<^verbatim>\<open>json.Marshal\<close> is answered with \<^verbatim>\<open>panic(err)\<close>.
  The error of \<^verbatim>\<open>http.NewRequest\<close> is not looked at: the request is then nil, and
  \<^verbatim>\<open>req.Header.Set\<close> dereferences it. A failed \<^verbatim>\<open>client.Do\<close> prints one line.
\<close>

definition notifySlack :: "Environ \<Rightarrow> Http \<Rightarrow> Event \<Rightarrow> panic + effect list" where
  "notifySlack env http event =
     (let webhookUrl = SLACK_WEBHOOK_URL env;
          message = \<lparr>Attachments =
            [\<lparr>Color = ''warning'',
              AuthorName = Namespace (InvolvedObject event),
              AuthorLink = monitoringUrl env event,
              Title = Name (InvolvedObject event),
              TitleLink = resourceUrl env event,
              Text = Message event,
              Fields =
                [\<lparr>SlackField.Title = ''Reason'', Value = Reason event, Short = True\<rparr>,
                 \<lparr>SlackField.Title = ''Kind'', Value = Kind (InvolvedObject event), Short = True\<rparr>]\<rparr>]\<rparr>
      in case marshalErr http of
           Some err \<Rightarrow> Inl (Panicked err)
         | None \<Rightarrow>
             (case newRequestErr http of
                Some err \<Rightarrow> Inl NilDereference
              | None \<Rightarrow>
                  (case doErr http of
                     Some err \<Rightarrow>
                       Inr [HttpPost webhookUrl message, Println ''Unable to reach the server.'']
                   | None \<Rightarrow> Inr [HttpPost webhookUrl message])))"

section \<open>The watch loop\<close>

text \<open>
  What the result channel delivers: an object that is a \<^verbatim>\<open>*v1.Event\<close> or is not (the
  status object of an error event, for one), with what the environment decides while the
  loop body handles it: the clock when the cache is read, the clock when it is written,
  and how the HTTP calls of the notifier end.
\<close>

datatype Object = EventObject Event | OtherObject

record Delivery =
  object :: Object
  getTime :: int
  setTime :: int
  http :: Http

text \<open>
  A run of a piece of the program: the cache it leaves, what it did, and the panic it died
  of, if any. Nothing recovers from a panic in this program, so a panic ends the process.
\<close>

record Run =
  store :: Cache
  trace :: "effect list"
  crashed :: "panic option"

text \<open>
  The body of the loop of \<^verbatim>\<open>watchEvents\<close> in \<^verbatim>\<open>src/unnamed/part_000\<close> (lines 101
  to 134), for one delivery.
\<close>

definition loopBody :: "Environ \<Rightarrow> int \<Rightarrow> Delivery \<Rightarrow> Cache \<Rightarrow> Run" where
  "loopBody env startTime d c =
     (case object d of
        OtherObject \<Rightarrow> \<lparr>store = c, trace = [], crashed = Some TypeAssertion\<rparr>
      | EventObject event \<Rightarrow>
          if startTime < FirstTimestamp event then
            (case Get c ''last_slack_event'' (getTime d) of
               None \<Rightarrow>
                 (case notifySlack env (http d) event of
                    Inl p \<Rightarrow>
                      \<lparr>store = c,
                       trace = [CacheGet ''last_slack_event'', Notify event],
                       crashed = Some p\<rparr>
                  | Inr out \<Rightarrow>
                      (case buildCachedEvent event of
                         Inl p \<Rightarrow>
                           \<lparr>store = c,
                            trace = [CacheGet ''last_slack_event'', Notify event] @ out
                              @ [Build event],
                            crashed = Some p\<rparr>
                       | Inr currentMessage \<Rightarrow>
                           \<lparr>store = Set c ''last_slack_event'' currentMessage 0 (setTime d),
                            trace = [CacheGet ''last_slack_event'', Notify event] @ out
                              @ [Build event, CacheSet ''last_slack_event'' currentMessage],
                            crashed = None\<rparr>))
             | Some cachedMessage \<Rightarrow>
                 (case buildCachedEvent event of
                    Inl p \<Rightarrow>
                      \<lparr>store = c,
                       trace = [CacheGet ''last_slack_event'', Build event],
                       crashed = Some p\<rparr>
                  | Inr currentMessage \<Rightarrow>
                      if cachedMessage \<noteq> currentMessage then
                        (case notifySlack env (http d) event of
                           Inl p \<Rightarrow>
                             \<lparr>store = c,
                              trace = [CacheGet ''last_slack_event'', Build event, Notify event],
                              crashed = Some p\<rparr>
                         | Inr out \<Rightarrow>
                             \<lparr>store = Set c ''last_slack_event'' currentMessage 0 (setTime d),
                              trace = [CacheGet ''last_slack_event'', Build event, Notify event]
                                @ out @ [CacheSet ''last_slack_event'' currentMessage],
                              crashed = None\<rparr>)
                      else
                        \<lparr>store = c,
                         trace = [CacheGet ''last_slack_event'', Build event],
                         crashed = None\<rparr>))
          else \<lparr>store = c, trace = [], crashed = None\<rparr>)"

text \<open>
  The body of the same loop in \<^verbatim>\<open>src/main.go\<close> (lines 101 to 126): it caches and
  compares the message of the event.
\<close>

definition loopBody_main :: "Environ \<Rightarrow> int \<Rightarrow> Delivery \<Rightarrow> Cache \<Rightarrow> Run" where
  "loopBody_main env startTime d c =
     (case object d of
        OtherObject \<Rightarrow> \<lparr>store = c, trace = [], crashed = Some TypeAssertion\<rparr>
      | EventObject event \<Rightarrow>
          if startTime < FirstTimestamp event then
            (case Get c ''last_slack_event'' (getTime d) of
               None \<Rightarrow>
                 (case notifySlack env (http d) event of
                    Inl p \<Rightarrow>
                      \<lparr>store = c,
                       trace = [CacheGet ''last_slack_event'', Notify event],
                       crashed = Some p\<rparr>
                  | Inr out \<Rightarrow>
                      \<lparr>store = Set c ''last_slack_event'' (Message event) 0 (setTime d),
                       trace = [CacheGet ''last_slack_event'', Notify event] @ out
                         @ [CacheSet ''last_slack_event'' (Message event)],
                       crashed = None\<rparr>)
             | Some msg \<Rightarrow>
                 if msg \<noteq> Message event then
                   (case notifySlack env (http d) event of
                      Inl p \<Rightarrow>
                        \<lparr>store = c,
                         trace = [CacheGet ''last_slack_event'', Notify event],
                         crashed = Some p\<rparr>
                    | Inr out \<Rightarrow>
                        \<lparr>store = Set c ''last_slack_event'' (Message event) 0 (setTime d),
                         trace = [CacheGet ''last_slack_event'', Notify event] @ out
                           @ [CacheSet ''last_slack_event'' (Message event)],
                         crashed = None\<rparr>)
                 else \<lparr>store = c, trace = [CacheGet ''last_slack_event''], crashed = None\<rparr>)
          else \<lparr>store = c, trace = [], crashed = None\<rparr>)"

text \<open>
  \<^verbatim>\<open>for watchEvent := range watcher.ResultChan()\<close>: the body runs on each delivery in
  turn until the channel is closed, here at the end of the list, or the body panics.
\<close>

fun forRange :: "(Delivery \<Rightarrow> Cache \<Rightarrow> Run) \<Rightarrow> Delivery list \<Rightarrow> Cache \<Rightarrow> Run" where
  "forRange body [] c = \<lparr>store = c, trace = [], crashed = None\<rparr>"
| "forRange body (d # ds) c =
     (let r = body d c
      in case crashed r of
           Some p \<Rightarrow> r
         | None \<Rightarrow>
             (let r' = forRange body ds (store r)
              in r'\<lparr>trace := trace r @ trace r'\<rparr>))"

text \<open>
  One call of \<^verbatim>\<open>watchEvents\<close>: the clock read on entry, and what the call of
  \<^verbatim>\<open>Watch\<close> returns, an error or a channel, given by the deliveries made until it is
  closed.
\<close>

record Attempt =
  startTime :: int
  watchResult :: "string + Delivery list"

definition watchEvents :: "Environ \<Rightarrow> Attempt \<Rightarrow> Cache \<Rightarrow> Run" where
  "watchEvents env a c =
     (case watchResult a of
        Inl err \<Rightarrow>
          \<lparr>store = c, trace = [Watch ''type=Warning''], crashed = Some (Panicked err)\<rparr>
      | Inr ds \<Rightarrow>
          (let r = forRange (loopBody env (startTime a)) ds c
           in r\<lparr>trace := Watch ''type=Warning'' # trace r\<rparr>))"

definition watchEvents_main :: "Environ \<Rightarrow> Attempt \<Rightarrow> Cache \<Rightarrow> Run" where
  "watchEvents_main env a c =
     (case watchResult a of
        Inl err \<Rightarrow>
          \<lparr>store = c, trace = [Watch ''type=Warning''], crashed = Some (Panicked err)\<rparr>
      | Inr ds \<Rightarrow>
          (let r = forRange (loopBody_main env (startTime a)) ds c
           in r\<lparr>trace := Watch ''type=Warning'' # trace r\<rparr>))"

text \<open>
  The goroutine that \<^verbatim>\<open>main\<close> starts: \<^verbatim>\<open>for { watchEvents(clientset); time.Sleep(5 *
  time.Second) }\<close>. The loop has no exit. The list holds the calls of \<^verbatim>\<open>watchEvents\<close>
  made so far; a run that ends with \<open>crashed = None\<close> is a driver that is still looping.
  The rest of \<^verbatim>\<open>main\<close>, the construction of the client and the HTTP listener, takes
  no part in the event pipeline and is left out.
\<close>

fun retryDriver :: "Environ \<Rightarrow> Attempt list \<Rightarrow> Cache \<Rightarrow> Run" where
  "retryDriver env [] c = \<lparr>store = c, trace = [], crashed = None\<rparr>"
| "retryDriver env (a # as) c =
     (let r = watchEvents env a c
      in case crashed r of
           Some p \<Rightarrow> r
         | None \<Rightarrow>
             (let r' = retryDriver env as (store r)
              in r'\<lparr>trace := trace r @ Sleep (5 * Second) # trace r'\<rparr>))"

section \<open>What a run is observed by\<close>

text \<open>
  The events that \<^verbatim>\<open>notifySlack\<close> was called with, in order; the value held under the
  key \<^verbatim>\<open>last_slack_event\<close>, expired or not; and, for a run of a loop body over the
  deliveries of a channel, whether each step called \<^verbatim>\<open>notifySlack\<close>. A step that
  panics is the last one.
\<close>

fun notified :: "effect list \<Rightarrow> Event list" where
  "notified [] = []"
| "notified (Notify e # xs) = e # notified xs"
| "notified (x # xs) = notified xs"

definition slot :: "Cache \<Rightarrow> string option" where
  "slot c = map_option Object (items c ''last_slack_event'')"

fun decisions :: "(Delivery \<Rightarrow> Cache \<Rightarrow> Run) \<Rightarrow> Delivery list \<Rightarrow> Cache \<Rightarrow> bool list" where
  "decisions body [] c = []"
| "decisions body (d # ds) c =
     (let r = body d c
      in (notified (trace r) \<noteq> [])
           # (case crashed r of Some p \<Rightarrow> [] | None \<Rightarrow> decisions body ds (store r)))"

text \<open>
  The two listings side by side. Their caches are related when both are empty, or the one of
  \<^verbatim>\<open>src/main.go\<close> holds the message and the other the fingerprint of the same event of
  \<open>E\<close>, with the same expiry.
\<close>

definition related :: "Event set \<Rightarrow> Cache \<Rightarrow> Cache \<Rightarrow> bool" where
  "related E c1 c2 \<longleftrightarrow>
     defaultExpiration c1 = defaultExpiration c2
     \<and> (case (items c1 ''last_slack_event'', items c2 ''last_slack_event'') of
          (None, None) \<Rightarrow> True
        | (Some i1, Some i2) \<Rightarrow>
            Expiration i1 = Expiration i2
            \<and> (\<exists>e \<in> E. Object i1 = Message e \<and> buildCachedEvent e = Inr (Object i2))
        | _ \<Rightarrow> False)"

section \<open>Facts about the string functions\<close>

lemma HasPrefix_iff: "HasPrefix s p \<longleftrightarrow> (\<exists>r. s = p @ r)"
proof
  assume "HasPrefix s p"
  then have "s = p @ drop (length p) s"
    unfolding HasPrefix_def by (metis append_take_drop_id)
  then show "\<exists>r. s = p @ r" ..
next
  assume "\<exists>r. s = p @ r"
  then show "HasPrefix s p" by (auto simp: HasPrefix_def)
qed

lemma first_Split:
  "sep \<noteq> [] \<Longrightarrow> first (Split s sep) = Inr (case Index s sep of None \<Rightarrow> s | Some m \<Rightarrow> take m s)"
  by (simp add: Split_def first_def genSplit.simps [of s sep] split: option.splits)

lemma Index_single:
  "Index s [c] = (if c \<in> set s then Some (length (takeWhile (\<lambda>x. x \<noteq> c) s)) else None)"
  by (induction s) (auto simp: HasPrefix_def)

lemma first_Split_single: "first (Split s [c]) = Inr (takeWhile (\<lambda>x. x \<noteq> c) s)"
proof (cases "c \<in> set s")
  case True
  then show ?thesis by (simp add: first_Split Index_single takeWhile_eq_take [symmetric])
next
  case False
  then have "s = takeWhile (\<lambda>x. x \<noteq> c) s"
    by (metis (mono_tags, lifting) takeWhile_eq_all_conv)
  moreover from False have "first (Split s [c]) = Inr s"
    by (simp add: first_Split Index_single)
  ultimately show ?thesis by simp
qed

lemma Index_None_iff: "Index s sep = None \<longleftrightarrow> \<not> (\<exists>p r. s = p @ sep @ r)"
proof (induction s)
  case Nil
  then show ?case by auto
next
  case (Cons c cs)
  show ?case
  proof (cases "HasPrefix (c # cs) sep")
    case True
    then obtain r where "c # cs = [] @ sep @ r" by (auto simp: HasPrefix_iff)
    then have "\<exists>p r. c # cs = p @ sep @ r" by blast
    with True show ?thesis by simp
  next
    case False
    have "(\<exists>p r. c # cs = p @ sep @ r) \<longleftrightarrow> (\<exists>p r. cs = p @ sep @ r)"
    proof
      assume "\<exists>p r. c # cs = p @ sep @ r"
      then obtain p r where pr: "c # cs = p @ sep @ r" by blast
      with False have "p \<noteq> []" by (auto simp: HasPrefix_iff)
      then obtain p' where "p = c # p'" using pr by (cases p) auto
      with pr show "\<exists>p r. cs = p @ sep @ r" by auto
    next
      assume "\<exists>p r. cs = p @ sep @ r"
      then obtain p r where "cs = p @ sep @ r" by blast
      then have "c # cs = (c # p) @ sep @ r" by simp
      then show "\<exists>p r. c # cs = p @ sep @ r" by blast
    qed
    with False Cons.IH show ?thesis by simp
  qed
qed

lemma Index_append: "Index a sep = Some m \<Longrightarrow> Index (a @ r) sep = Some m"
proof (induction a arbitrary: m)
  case Nil
  then show ?case by (cases r) (auto simp: HasPrefix_def split: if_splits)
next
  case (Cons c cs)
  show ?case
  proof (cases "HasPrefix (c # cs) sep")
    case True
    then obtain t where "c # cs = sep @ t" by (auto simp: HasPrefix_iff)
    then have "(c # cs) @ r = sep @ (t @ r)" by simp
    then have "HasPrefix ((c # cs) @ r) sep" unfolding HasPrefix_iff by blast
    with True Cons.prems show ?thesis by simp
  next
    case False
    with Cons.prems obtain k where k: "Index cs sep = Some k" "m = Suc k" by auto
    from Index_bound [OF k(1)] have len: "length sep \<le> length cs" by simp
    have "\<not> HasPrefix ((c # cs) @ r) sep"
    proof
      assume "HasPrefix ((c # cs) @ r) sep"
      then have "take (length sep) ((c # cs) @ r) = sep" by (simp add: HasPrefix_def)
      moreover have "take (length sep) (xs @ r) = take (length sep) xs"
        if "length sep \<le> length xs" for xs :: string
        using that by simp
      from this [of "c # cs"] len
      have "take (length sep) ((c # cs) @ r) = take (length sep) (c # cs)" by simp
      ultimately have "take (length sep) (c # cs) = sep" by simp
      with len False show False by (simp add: HasPrefix_def)
    qed
    with k Cons.IH [OF k(1)] show ?thesis by simp
  qed
qed

lemma no_space_Index: "Index s '' '' = None \<Longrightarrow> map (\<lambda>c. if c = CHR '' '' then CHR ''_'' else c) s = s"
proof -
  assume "Index s '' '' = None"
  then have "CHR '' '' \<notin> set s" by (simp add: Index_single split: if_splits)
  then show ?thesis by (induction s) auto
qed

lemma Index_single_Some:
  "Index s [c] = Some j \<Longrightarrow> j < length s \<and> s ! j = c \<and> c \<notin> set (take j s)"
proof (induction s arbitrary: j)
  case Nil
  then show ?case by simp
next
  case (Cons x xs)
  show ?case
  proof (cases "x = c")
    case True
    with Cons.prems show ?thesis by (simp add: HasPrefix_def)
  next
    case False
    with Cons.prems obtain k where k: "Index xs [c] = Some k" "j = Suc k"
      by (auto simp: HasPrefix_def)
    from Cons.IH [OF k(1)] False k(2) show ?thesis by simp
  qed
qed

lemma replaceLoop_space:
  "Count s '' '' \<le> k \<Longrightarrow>
   replaceLoop s '' '' ''_'' k = map (\<lambda>c. if c = CHR '' '' then CHR ''_'' else c) s"
proof (induction k arbitrary: s)
  case 0
  then have "Index s '' '' = None"
    by (simp add: Count.simps [of s] split: option.splits)
  then show ?case by (simp add: no_space_Index)
next
  case (Suc k)
  let ?g = "\<lambda>c. if c = CHR '' '' then CHR ''_'' else c"
  show ?case
  proof (cases "Index s '' ''")
    case None
    then show ?thesis by (simp add: no_space_Index)
  next
    case (Some j)
    from Index_single_Some [OF Some]
    have jlt: "j < length s" and sj: "s ! j = CHR '' ''" and nosp: "CHR '' '' \<notin> set (take j s)"
      by simp_all
    from Suc.prems Some have "Count (drop (Suc j) s) '' '' \<le> k"
      by (simp add: Count.simps [of s])
    then have IH: "replaceLoop (drop (Suc j) s) '' '' ''_'' k = map ?g (drop (Suc j) s)"
      by (rule Suc.IH)
    from nosp have m1: "map ?g (take j s) = take j s"
      by (intro map_idI) auto
    from id_take_nth_drop [OF jlt]
    have "map ?g s = map ?g (take j s @ s ! j # drop (Suc j) s)"
      by (rule arg_cong)
    also have "\<dots> = take j s @ CHR ''_'' # map ?g (drop (Suc j) s)"
      using m1 sj by simp
    finally show ?thesis using Some IH by simp
  qed
qed

lemma Replace_space:
  "Replace s '' '' ''_'' (- 1) = map (\<lambda>c. if c = CHR '' '' then CHR ''_'' else c) s"
proof (cases "Count s '' '' = 0")
  case True
  then have "Index s '' '' = None"
    by (simp add: Count.simps [of s] split: option.splits)
  with True show ?thesis by (simp add: Replace_def no_space_Index)
next
  case False
  then show ?thesis by (simp add: Replace_def replaceLoop_space)
qed

section \<open>The fingerprint\<close>

lemma first_Split_dash:
  "first (Split s ''-'') = Inr (takeWhile (\<lambda>x. x \<noteq> CHR ''-'') s)"
  by (rule first_Split_single)

lemma msgc_plain:
  "\<not> HasPrefix (Message e) ''Readiness'' \<Longrightarrow> \<not> HasPrefix (Message e) ''Liveness'' \<Longrightarrow>
   msgc e = Inr [Namespace (InvolvedObject e),
     takeWhile (\<lambda>x. x \<noteq> CHR ''-'') (Name (InvolvedObject e)), Message e]"
  by (simp add: msgc_def first_Split_dash)

lemma msgc_probe:
  "HasPrefix (Message e) ''Readiness'' \<or> HasPrefix (Message e) ''Liveness'' \<Longrightarrow>
   msgc e = Inr [Namespace (InvolvedObject e),
     takeWhile (\<lambda>x. x \<noteq> CHR ''-'') (Name (InvolvedObject e)),
     map (\<lambda>c. if c = CHR '' '' then CHR ''_'' else c)
       (case Index (Message e) '': Get http://10.'' of
          None \<Rightarrow> Message e | Some m \<Rightarrow> take m (Message e))]"
  by (simp add: msgc_def first_Split_dash first_Split Replace_space)

lemma msgc_total:
  "\<exists>m. msgc e = Inr [Namespace (InvolvedObject e),
     takeWhile (\<lambda>x. x \<noteq> CHR ''-'') (Name (InvolvedObject e)), m]"
proof (cases "HasPrefix (Message e) ''Readiness'' \<or> HasPrefix (Message e) ''Liveness''")
  case True
  from msgc_probe [OF this] show ?thesis by blast
next
  case False
  then show ?thesis by (simp add: msgc_plain)
qed

lemma Index_marker:
  "\<exists>n\<le>length p. Index (p @ sep @ r) sep = Some n \<and> n = the (Index (p @ sep) sep)"
proof -
  have "\<exists>q t. p @ sep = q @ sep @ t" by (metis append_Nil2)
  then have "Index (p @ sep) sep \<noteq> None" by (simp only: Index_None_iff not_not)
  then obtain n where n: "Index (p @ sep) sep = Some n" by blast
  from Index_bound [OF n] have "n \<le> length p" by simp
  moreover from Index_append [OF n, of r] have "Index (p @ sep @ r) sep = Some n" by simp
  ultimately show ?thesis using n by simp
qed

text \<open>
  Claim C2. For every event, \<open>buildCachedEvent\<close> returns the namespace, the first
  hyphen-delimited piece of the name and a message component, joined with \<open>_\<close>; the
  message component is the message itself when the message begins neither with
  \<open>Readiness\<close> nor with \<open>Liveness\<close>. The event of namespace \<open>ns1\<close>, name
  \<open>app-abc123\<close> and message \<open>CrashLoopBackOff\<close> gives \<open>ns1_app_CrashLoopBackOff\<close>.
\<close>

theorem C2_fingerprint_format:
  "(\<exists>m. buildCachedEvent e =
          Inr (Namespace (InvolvedObject e) @ ''_''
                 @ takeWhile (\<lambda>x. x \<noteq> CHR ''-'') (Name (InvolvedObject e)) @ ''_'' @ m)
        \<and> (\<not> HasPrefix (Message e) ''Readiness'' \<and> \<not> HasPrefix (Message e) ''Liveness''
             \<longrightarrow> m = Message e))
   \<and> buildCachedEvent
        \<lparr>InvolvedObject = \<lparr>Kind = k, Namespace = ''ns1'', Name = ''app-abc123''\<rparr>,
         Reason = r, Message = ''CrashLoopBackOff'', FirstTimestamp = t\<rparr>
       = Inr ''ns1_app_CrashLoopBackOff''"
proof (intro conjI)
  show "\<exists>m. buildCachedEvent e =
          Inr (Namespace (InvolvedObject e) @ ''_''
                 @ takeWhile (\<lambda>x. x \<noteq> CHR ''-'') (Name (InvolvedObject e)) @ ''_'' @ m)
        \<and> (\<not> HasPrefix (Message e) ''Readiness'' \<and> \<not> HasPrefix (Message e) ''Liveness''
             \<longrightarrow> m = Message e)"
  proof (cases "HasPrefix (Message e) ''Readiness'' \<or> HasPrefix (Message e) ''Liveness''")
    case True
    from msgc_probe [OF this] True show ?thesis
      by (auto simp: buildCachedEvent_def)
  next
    case False
    then show ?thesis by (simp add: buildCachedEvent_def msgc_plain)
  qed
next
  let ?e = "\<lparr>InvolvedObject = \<lparr>Kind = k, Namespace = ''ns1'', Name = ''app-abc123''\<rparr>,
         Reason = r, Message = ''CrashLoopBackOff'', FirstTimestamp = t\<rparr>"
  have "\<not> HasPrefix (Message ?e) ''Readiness''" "\<not> HasPrefix (Message ?e) ''Liveness''"
    by (simp_all add: HasPrefix_def)
  then have "msgc ?e = Inr [''ns1'', ''app'', ''CrashLoopBackOff'']"
    by (simp add: msgc_plain)
  then show "buildCachedEvent ?e = Inr ''ns1_app_CrashLoopBackOff''"
    by (simp add: buildCachedEvent_def)
qed

theorem C2_fingerprint_format_witness:
  "\<not> HasPrefix ''OOMKilled'' ''Readiness'' \<and> \<not> HasPrefix ''OOMKilled'' ''Liveness''
   \<and> buildCachedEvent
        \<lparr>InvolvedObject = \<lparr>Kind = ''Pod'', Namespace = ''ns1'', Name = ''app-abc123''\<rparr>,
         Reason = ''Killing'', Message = ''OOMKilled'', FirstTimestamp = 12\<rparr>
       = Inr ''ns1_app_OOMKilled''"
proof -
  let ?e = "\<lparr>InvolvedObject = \<lparr>Kind = ''Pod'', Namespace = ''ns1'', Name = ''app-abc123''\<rparr>,
         Reason = ''Killing'', Message = ''OOMKilled'', FirstTimestamp = 12\<rparr>"
  have h: "\<not> HasPrefix ''OOMKilled'' ''Readiness''" "\<not> HasPrefix ''OOMKilled'' ''Liveness''"
    by (simp_all add: HasPrefix_def)
  from C2_fingerprint_format [where e = ?e and k = "''Pod''" and r = "''Killing''" and t = 12,
      THEN conjunct1]
  obtain m where
    "buildCachedEvent ?e = Inr (''ns1'' @ ''_'' @ ''app'' @ ''_'' @ m)"
    "\<not> HasPrefix ''OOMKilled'' ''Readiness'' \<and> \<not> HasPrefix ''OOMKilled'' ''Liveness''
       \<longrightarrow> m = ''OOMKilled''"
    by auto
  with h show ?thesis by simp
qed

text \<open>
  Claim C4 as stated fails on the code: for the name \<open>payments-api-7d8f9c-xk2pq\<close> the
  second element of \<open>msgc\<close> is \<open>payments\<close>, not \<open>payments-api\<close>.
\<close>

theorem C4_workload_prefix_counterexample:
  "msgc \<lparr>InvolvedObject =
            \<lparr>Kind = ''Pod'', Namespace = ''shop'', Name = ''payments-api-7d8f9c-xk2pq''\<rparr>,
          Reason = ''BackOff'', Message = ''Back-off restarting failed container'',
          FirstTimestamp = 1\<rparr>
     = Inr [''shop'', ''payments'', ''Back-off restarting failed container'']
   \<and> msgc \<lparr>InvolvedObject =
            \<lparr>Kind = ''Pod'', Namespace = ''shop'', Name = ''payments-api-7d8f9c-xk2pq''\<rparr>,
          Reason = ''BackOff'', Message = ''Back-off restarting failed container'',
          FirstTimestamp = 1\<rparr>
     \<noteq> Inr [''shop'', ''payments-api'', ''Back-off restarting failed container'']"
  by (simp add: msgc_plain HasPrefix_def)

text \<open>
  Claim C4, as amended. The claim gives \<open>payments-api\<close> as the prefix component of the
  name \<open>payments-api-7d8f9c-xk2pq\<close>. The code keeps what stands before the first hyphen:
  for every event of that name the second element of \<open>msgc\<close> is \<open>payments\<close>.
\<close>

theorem C4_workload_prefix:
  "Name (InvolvedObject e) = ''payments-api-7d8f9c-xk2pq'' \<Longrightarrow>
   \<exists>m. msgc e = Inr [Namespace (InvolvedObject e), ''payments'', m]"
proof -
  assume n: "Name (InvolvedObject e) = ''payments-api-7d8f9c-xk2pq''"
  from msgc_total [of e] obtain m where
    "msgc e = Inr [Namespace (InvolvedObject e),
       takeWhile (\<lambda>x. x \<noteq> CHR ''-'') (Name (InvolvedObject e)), m]" ..
  with n have "msgc e = Inr [Namespace (InvolvedObject e), ''payments'', m]" by simp
  then show ?thesis ..
qed

theorem C4_workload_prefix_witness:
  "\<exists>m. msgc \<lparr>InvolvedObject =
            \<lparr>Kind = ''Pod'', Namespace = ''shop'', Name = ''payments-api-7d8f9c-xk2pq''\<rparr>,
          Reason = ''Unhealthy'',
          Message = ''Liveness probe failed: Get http://10.0.0.7:8080/live: EOF'',
          FirstTimestamp = 1\<rparr>
     = Inr [''shop'', ''payments'', m]"
  using C4_workload_prefix [of "\<lparr>InvolvedObject =
            \<lparr>Kind = ''Pod'', Namespace = ''shop'', Name = ''payments-api-7d8f9c-xk2pq''\<rparr>,
          Reason = ''Unhealthy'',
          Message = ''Liveness probe failed: Get http://10.0.0.7:8080/live: EOF'',
          FirstTimestamp = 1\<rparr>"]
  by simp

text \<open>
  Claim C7. \<open>buildCachedEvent\<close> returns a fingerprint for every event and never panics:
  the two index expressions \<^verbatim>\<open>s[0]\<close> are in range whatever the name and the message
  are. A name without a hyphen, the empty name with it, is kept whole. When the message
  begins with \<open>Readiness\<close> or \<open>Liveness\<close> and does not contain
  \<open>: Get http://10.\<close>, the message component is the whole message with every space
  replaced by an underscore.
\<close>

theorem C7_reducer_total:
  "(\<exists>fp. buildCachedEvent e = Inr fp)
   \<and> (CHR ''-'' \<notin> set (Name (InvolvedObject e)) \<longrightarrow>
        (\<exists>m. msgc e = Inr [Namespace (InvolvedObject e), Name (InvolvedObject e), m]))
   \<and> ((HasPrefix (Message e) ''Readiness'' \<or> HasPrefix (Message e) ''Liveness'')
        \<and> \<not> (\<exists>p r. Message e = p @ '': Get http://10.'' @ r) \<longrightarrow>
        msgc e = Inr [Namespace (InvolvedObject e),
          takeWhile (\<lambda>x. x \<noteq> CHR ''-'') (Name (InvolvedObject e)),
          map (\<lambda>c. if c = CHR '' '' then CHR ''_'' else c) (Message e)])"
proof (intro conjI impI)
  from msgc_total [of e] show "\<exists>fp. buildCachedEvent e = Inr fp"
    by (auto simp: buildCachedEvent_def)
next
  assume "CHR ''-'' \<notin> set (Name (InvolvedObject e))"
  then have "takeWhile (\<lambda>x. x \<noteq> CHR ''-'') (Name (InvolvedObject e)) = Name (InvolvedObject e)"
    by (auto simp: takeWhile_eq_all_conv)
  with msgc_total [of e]
  show "\<exists>m. msgc e = Inr [Namespace (InvolvedObject e), Name (InvolvedObject e), m]"
    by simp
next
  assume a: "(HasPrefix (Message e) ''Readiness'' \<or> HasPrefix (Message e) ''Liveness'')
        \<and> \<not> (\<exists>p r. Message e = p @ '': Get http://10.'' @ r)"
  then have "\<not> (\<exists>p r. Message e = p @ '': Get http://10.'' @ r)" ..
  then have "Index (Message e) '': Get http://10.'' = None"
    by (rule Index_None_iff [THEN iffD2])
  with a msgc_probe [of e]
  show "msgc e = Inr [Namespace (InvolvedObject e),
          takeWhile (\<lambda>x. x \<noteq> CHR ''-'') (Name (InvolvedObject e)),
          map (\<lambda>c. if c = CHR '' '' then CHR ''_'' else c) (Message e)]"
    by simp
qed

theorem C7_reducer_total_witness:
  "buildCachedEvent
     \<lparr>InvolvedObject = \<lparr>Kind = ''Pod'', Namespace = ''ns1'', Name = []\<rparr>,
      Reason = ''Unhealthy'',
      Message = ''Liveness probe failed: HTTP probe failed with statuscode: 503'',
      FirstTimestamp = 1\<rparr>
   = Inr ''ns1__Liveness_probe_failed:_HTTP_probe_failed_with_statuscode:_503''"
proof -
  let ?m = "''Liveness probe failed: HTTP probe failed with statuscode: 503''"
  let ?e = "\<lparr>InvolvedObject = \<lparr>Kind = ''Pod'', Namespace = ''ns1'', Name = []\<rparr>,
      Reason = ''Unhealthy'', Message = ?m, FirstTimestamp = 1\<rparr>"
  have "Index ?m '': Get http://10.'' = None" by code_simp
  then have absent: "\<not> (\<exists>p r. Message ?e = p @ '': Get http://10.'' @ r)"
    by (simp only: Index_None_iff [symmetric] Event.simps)
  have live: "HasPrefix (Message ?e) ''Liveness''" by (simp add: HasPrefix_def)
  have nohyphen: "CHR ''-'' \<notin> set (Name (InvolvedObject ?e))" by simp
  from C7_reducer_total [of ?e] absent live nohyphen
  have "msgc ?e = Inr [''ns1'', [],
      map (\<lambda>c. if c = CHR '' '' then CHR ''_'' else c) ?m]"
    by simp
  then show ?thesis by (simp add: buildCachedEvent_def)
qed

lemma Split_readiness_1:
  "Index ''Readiness probe failed: Get http://10.1.2.3:8080/healthz: dial tcp: timeout''
     '': Get http://10.'' = Some 22"
  by code_simp

lemma Split_readiness_2:
  "Index ''Readiness probe failed: Get http://10.9.9.9:9090/healthz: connection refused''
     '': Get http://10.'' = Some 22"
  by code_simp

lemma underscores_readiness:
  "map (\<lambda>c. if c = CHR '' '' then CHR ''_'' else c)
     (take 22 ''Readiness probe failed: Get http://10.1.2.3:8080/healthz: dial tcp: timeout'')
   = ''Readiness_probe_failed''"
  "map (\<lambda>c. if c = CHR '' '' then CHR ''_'' else c)
     (take 22 ''Readiness probe failed: Get http://10.9.9.9:9090/healthz: connection refused'')
   = ''Readiness_probe_failed''"
  by code_simp+

lemma msgc_readiness_1:
  assumes "Message e
    = ''Readiness probe failed: Get http://10.1.2.3:8080/healthz: dial tcp: timeout''"
  shows "msgc e = Inr [Namespace (InvolvedObject e),
            takeWhile (\<lambda>x. x \<noteq> CHR ''-'') (Name (InvolvedObject e)),
            ''Readiness_probe_failed'']"
proof -
  have "HasPrefix (Message e) ''Readiness''" by (simp add: assms HasPrefix_def)
  then have "HasPrefix (Message e) ''Readiness'' \<or> HasPrefix (Message e) ''Liveness''" ..
  from msgc_probe [OF this] show ?thesis
    unfolding assms Split_readiness_1 option.case underscores_readiness .
qed

lemma msgc_readiness_2:
  assumes "Message e
    = ''Readiness probe failed: Get http://10.9.9.9:9090/healthz: connection refused''"
  shows "msgc e = Inr [Namespace (InvolvedObject e),
            takeWhile (\<lambda>x. x \<noteq> CHR ''-'') (Name (InvolvedObject e)),
            ''Readiness_probe_failed'']"
proof -
  have "HasPrefix (Message e) ''Readiness''" by (simp add: assms HasPrefix_def)
  then have "HasPrefix (Message e) ''Readiness'' \<or> HasPrefix (Message e) ''Liveness''" ..
  from msgc_probe [OF this] show ?thesis
    unfolding assms Split_readiness_2 option.case underscores_readiness .
qed

text \<open>
  Claim C3. Two events of the same namespace and the same first hyphen-delimited piece of
  the name, whose messages both begin with \<open>Readiness\<close> (or both with \<open>Liveness\<close>)
  and are the same up to and including \<open>: Get http://10.\<close>, have the same fingerprint;
  its message component is a prefix of the common part with every space replaced by an
  underscore. The two messages of the specification reduce to the same fingerprint, with
  the message component \<open>Readiness_probe_failed\<close>.
\<close>

theorem C3_health_check_truncation:
  "(Namespace (InvolvedObject e1) = Namespace (InvolvedObject e2)
    \<and> takeWhile (\<lambda>x. x \<noteq> CHR ''-'') (Name (InvolvedObject e1))
        = takeWhile (\<lambda>x. x \<noteq> CHR ''-'') (Name (InvolvedObject e2))
    \<and> (HasPrefix (Message e1) ''Readiness'' \<and> HasPrefix (Message e2) ''Readiness''
        \<or> HasPrefix (Message e1) ''Liveness'' \<and> HasPrefix (Message e2) ''Liveness'')
    \<and> Message e1 = p @ '': Get http://10.'' @ r1
    \<and> Message e2 = p @ '': Get http://10.'' @ r2
    \<longrightarrow> buildCachedEvent e1 = buildCachedEvent e2
      \<and> (\<exists>n. n \<le> length p \<and>
            msgc e1 = Inr [Namespace (InvolvedObject e1),
              takeWhile (\<lambda>x. x \<noteq> CHR ''-'') (Name (InvolvedObject e1)),
              map (\<lambda>c. if c = CHR '' '' then CHR ''_'' else c) (take n p)]))
   \<and> (Namespace (InvolvedObject e1) = Namespace (InvolvedObject e2)
    \<and> takeWhile (\<lambda>x. x \<noteq> CHR ''-'') (Name (InvolvedObject e1))
        = takeWhile (\<lambda>x. x \<noteq> CHR ''-'') (Name (InvolvedObject e2))
    \<and> Message e1
        = ''Readiness probe failed: Get http://10.1.2.3:8080/healthz: dial tcp: timeout''
    \<and> Message e2
        = ''Readiness probe failed: Get http://10.9.9.9:9090/healthz: connection refused''
    \<longrightarrow> buildCachedEvent e1 = buildCachedEvent e2
      \<and> msgc e1 = Inr [Namespace (InvolvedObject e1),
            takeWhile (\<lambda>x. x \<noteq> CHR ''-'') (Name (InvolvedObject e1)),
            ''Readiness_probe_failed''])"
proof (intro conjI impI)
  let ?sep = "'': Get http://10.''"
  let ?us = "\<lambda>c. if c = CHR '' '' then CHR ''_'' else c"
  assume a: "Namespace (InvolvedObject e1) = Namespace (InvolvedObject e2)
    \<and> takeWhile (\<lambda>x. x \<noteq> CHR ''-'') (Name (InvolvedObject e1))
        = takeWhile (\<lambda>x. x \<noteq> CHR ''-'') (Name (InvolvedObject e2))
    \<and> (HasPrefix (Message e1) ''Readiness'' \<and> HasPrefix (Message e2) ''Readiness''
        \<or> HasPrefix (Message e1) ''Liveness'' \<and> HasPrefix (Message e2) ''Liveness'')
    \<and> Message e1 = p @ ?sep @ r1
    \<and> Message e2 = p @ ?sep @ r2"
  then have p1: "HasPrefix (Message e1) ''Readiness'' \<or> HasPrefix (Message e1) ''Liveness''"
    and p2: "HasPrefix (Message e2) ''Readiness'' \<or> HasPrefix (Message e2) ''Liveness''"
    by blast+
  from a have m1: "Message e1 = p @ ?sep @ r1" and m2: "Message e2 = p @ ?sep @ r2"
    by blast+
  from Index_marker [of p ?sep r1] obtain n where n: "n \<le> length p"
    "Index (p @ ?sep @ r1) ?sep = Some n" "n = the (Index (p @ ?sep) ?sep)"
    by blast
  from Index_marker [of p ?sep r2] n(3) have n2: "Index (p @ ?sep @ r2) ?sep = Some n"
    by auto
  have c1: "msgc e1 = Inr [Namespace (InvolvedObject e1),
              takeWhile (\<lambda>x. x \<noteq> CHR ''-'') (Name (InvolvedObject e1)), map ?us (take n p)]"
    using msgc_probe [OF p1] n(1,2) by (simp add: m1)
  have c2: "msgc e2 = Inr [Namespace (InvolvedObject e2),
              takeWhile (\<lambda>x. x \<noteq> CHR ''-'') (Name (InvolvedObject e2)), map ?us (take n p)]"
    using msgc_probe [OF p2] n(1) n2 by (simp add: m2)
  from a have same: "Namespace (InvolvedObject e1) = Namespace (InvolvedObject e2)"
      "takeWhile (\<lambda>x. x \<noteq> CHR ''-'') (Name (InvolvedObject e1))
        = takeWhile (\<lambda>x. x \<noteq> CHR ''-'') (Name (InvolvedObject e2))"
    by blast+
  from same show "buildCachedEvent e1 = buildCachedEvent e2"
    by (simp add: buildCachedEvent_def c1 c2)
  from c1 n(1) show "\<exists>n. n \<le> length p \<and>
            msgc e1 = Inr [Namespace (InvolvedObject e1),
              takeWhile (\<lambda>x. x \<noteq> CHR ''-'') (Name (InvolvedObject e1)),
              map ?us (take n p)]"
    by blast
next
  assume a: "Namespace (InvolvedObject e1) = Namespace (InvolvedObject e2)
    \<and> takeWhile (\<lambda>x. x \<noteq> CHR ''-'') (Name (InvolvedObject e1))
        = takeWhile (\<lambda>x. x \<noteq> CHR ''-'') (Name (InvolvedObject e2))
    \<and> Message e1
        = ''Readiness probe failed: Get http://10.1.2.3:8080/healthz: dial tcp: timeout''
    \<and> Message e2
        = ''Readiness probe failed: Get http://10.9.9.9:9090/healthz: connection refused''"
  then have m1: "Message e1
        = ''Readiness probe failed: Get http://10.1.2.3:8080/healthz: dial tcp: timeout''"
    and m2: "Message e2
        = ''Readiness probe failed: Get http://10.9.9.9:9090/healthz: connection refused''"
    and same: "Namespace (InvolvedObject e1) = Namespace (InvolvedObject e2)"
      "takeWhile (\<lambda>x. x \<noteq> CHR ''-'') (Name (InvolvedObject e1))
        = takeWhile (\<lambda>x. x \<noteq> CHR ''-'') (Name (InvolvedObject e2))"
    by blast+
  note c1 = msgc_readiness_1 [OF m1] and c2 = msgc_readiness_2 [OF m2]
  from same show "buildCachedEvent e1 = buildCachedEvent e2"
    by (simp add: buildCachedEvent_def c1 c2)
  from c1 show "msgc e1 = Inr [Namespace (InvolvedObject e1),
            takeWhile (\<lambda>x. x \<noteq> CHR ''-'') (Name (InvolvedObject e1)),
            ''Readiness_probe_failed'']" .
qed

theorem C3_health_check_truncation_witness:
  "buildCachedEvent
     \<lparr>InvolvedObject = \<lparr>Kind = ''Pod'', Namespace = ''ns1'', Name = ''app-abc123''\<rparr>,
      Reason = ''Unhealthy'',
      Message = ''Readiness probe failed: Get http://10.1.2.3:8080/healthz: dial tcp: timeout'',
      FirstTimestamp = 10\<rparr>
   = buildCachedEvent
     \<lparr>InvolvedObject = \<lparr>Kind = ''Pod'', Namespace = ''ns1'', Name = ''app-xyz789''\<rparr>,
      Reason = ''Unhealthy'',
      Message = ''Readiness probe failed: Get http://10.9.9.9:9090/healthz: connection refused'',
      FirstTimestamp = 11\<rparr>
   \<and> msgc
     \<lparr>InvolvedObject = \<lparr>Kind = ''Pod'', Namespace = ''ns1'', Name = ''app-abc123''\<rparr>,
      Reason = ''Unhealthy'',
      Message = ''Readiness probe failed: Get http://10.1.2.3:8080/healthz: dial tcp: timeout'',
      FirstTimestamp = 10\<rparr>
   = Inr [''ns1'', ''app'', ''Readiness_probe_failed'']
   \<and> buildCachedEvent
     \<lparr>InvolvedObject = \<lparr>Kind = ''Pod'', Namespace = ''ns1'', Name = ''db-0''\<rparr>,
      Reason = ''Unhealthy'',
      Message = ''Liveness probe failed: Get http://10.0.0.7:8080/live: EOF'',
      FirstTimestamp = 10\<rparr>
   = buildCachedEvent
     \<lparr>InvolvedObject = \<lparr>Kind = ''Pod'', Namespace = ''ns1'', Name = ''db-1''\<rparr>,
      Reason = ''Unhealthy'',
      Message = ''Liveness probe failed: Get http://10.0.3.9:8080/live: dial tcp: timeout'',
      FirstTimestamp = 11\<rparr>"
proof -
  let ?a1 = "\<lparr>InvolvedObject = \<lparr>Kind = ''Pod'', Namespace = ''ns1'', Name = ''app-abc123''\<rparr>,
      Reason = ''Unhealthy'',
      Message = ''Readiness probe failed: Get http://10.1.2.3:8080/healthz: dial tcp: timeout'',
      FirstTimestamp = 10\<rparr>"
  let ?a2 = "\<lparr>InvolvedObject = \<lparr>Kind = ''Pod'', Namespace = ''ns1'', Name = ''app-xyz789''\<rparr>,
      Reason = ''Unhealthy'',
      Message = ''Readiness probe failed: Get http://10.9.9.9:9090/healthz: connection refused'',
      FirstTimestamp = 11\<rparr>"
  let ?b1 = "\<lparr>InvolvedObject = \<lparr>Kind = ''Pod'', Namespace = ''ns1'', Name = ''db-0''\<rparr>,
      Reason = ''Unhealthy'',
      Message = ''Liveness probe failed: Get http://10.0.0.7:8080/live: EOF'',
      FirstTimestamp = 10\<rparr>"
  let ?b2 = "\<lparr>InvolvedObject = \<lparr>Kind = ''Pod'', Namespace = ''ns1'', Name = ''db-1''\<rparr>,
      Reason = ''Unhealthy'',
      Message = ''Liveness probe failed: Get http://10.0.3.9:8080/live: dial tcp: timeout'',
      FirstTimestamp = 11\<rparr>"
  from C3_health_check_truncation [of ?a1 ?a2, THEN conjunct2]
  have a: "buildCachedEvent ?a1 = buildCachedEvent ?a2
     \<and> msgc ?a1 = Inr [''ns1'', ''app'', ''Readiness_probe_failed'']"
    by simp
  have "HasPrefix (Message ?b1) ''Liveness'' \<and> HasPrefix (Message ?b2) ''Liveness''"
    by (simp add: HasPrefix_def)
  with C3_health_check_truncation [of ?b1 ?b2 "''Liveness probe failed''" "''0.0.7:8080/live: EOF''"
      "''0.3.9:8080/live: dial tcp: timeout''", THEN conjunct1]
  have b: "buildCachedEvent ?b1 = buildCachedEvent ?b2"
    by simp
  from a b show ?thesis by blast
qed

section \<open>The notifier and the watch loop\<close>

lemma buildCachedEvent_total: "\<exists>fp. buildCachedEvent e = Inr fp"
proof -
  from msgc_total [of e] obtain m where
    "msgc e = Inr [Namespace (InvolvedObject e),
       takeWhile (\<lambda>x. x \<noteq> CHR ''-'') (Name (InvolvedObject e)), m]" ..
  then show ?thesis by (simp add: buildCachedEvent_def)
qed

lemma notifySlack_out:
  assumes "notifySlack env h e = Inr out"
  shows "\<exists>msg. out = HttpPost (SLACK_WEBHOOK_URL env) msg
            # (if doErr h = None then [] else [Println ''Unable to reach the server.''])"
  using assms by (auto simp: notifySlack_def Let_def split: option.splits)

lemma notifySlack_ok:
  assumes "marshalErr h = None" "newRequestErr h = None"
  shows "\<exists>out. notifySlack env h e = Inr out"
  using assms by (auto simp: notifySlack_def Let_def split: option.splits)

lemma loopBody_stale:
  "object d = EventObject e \<Longrightarrow> \<not> st < FirstTimestamp e \<Longrightarrow>
   loopBody env st d c = \<lparr>store = c, trace = [], crashed = None\<rparr>"
  by (simp add: loopBody_def)

lemma loopBody_fresh:
  assumes "object d = EventObject e" "st < FirstTimestamp e" "buildCachedEvent e = Inr fp"
  shows "loopBody env st d c =
     (if Get c ''last_slack_event'' (getTime d) = Some fp
      then \<lparr>store = c, trace = [CacheGet ''last_slack_event'', Build e], crashed = None\<rparr>
      else case notifySlack env (http d) e of
             Inl p \<Rightarrow>
               \<lparr>store = c,
                trace = (if Get c ''last_slack_event'' (getTime d) = None
                         then [CacheGet ''last_slack_event'', Notify e]
                         else [CacheGet ''last_slack_event'', Build e, Notify e]),
                crashed = Some p\<rparr>
           | Inr out \<Rightarrow>
               \<lparr>store = Set c ''last_slack_event'' fp 0 (setTime d),
                trace = (if Get c ''last_slack_event'' (getTime d) = None
                         then [CacheGet ''last_slack_event'', Notify e] @ out
                                @ [Build e, CacheSet ''last_slack_event'' fp]
                         else [CacheGet ''last_slack_event'', Build e, Notify e] @ out
                                @ [CacheSet ''last_slack_event'' fp]),
                crashed = None\<rparr>)"
  using assms by (simp add: loopBody_def split: option.splits sum.splits)

text \<open>
  Claim C9: the notifier returns normally to the watch loop whatever the serialization,
  the construction of the request and the POST do. The code does not, on an input it can
  receive. With a webhook URL that does not parse, here one that has lost its scheme,
  \<^verbatim>\<open>http.NewRequest\<close> returns a nil request and an error; the error is not looked at
  and \<^verbatim>\<open>req.Header.Set\<close> dereferences the nil request: \<open>notifySlack\<close> panics.
\<close>

theorem C9_notifier_nil_request:
  "notifySlack
     \<lparr>OPENSHIFT_CONSOLE_URL = ''https://console.example.org/'',
      SLACK_WEBHOOK_URL = ''://hooks.slack.com/services/T0/B0/X0''\<rparr>
     \<lparr>marshalErr = None,
      newRequestErr =
        Some ''parse ://hooks.slack.com/services/T0/B0/X0: missing protocol scheme'',
      doErr = None\<rparr>
     \<lparr>InvolvedObject = \<lparr>Kind = ''Pod'', Namespace = ''ns1'', Name = ''app-abc123''\<rparr>,
      Reason = ''BackOff'', Message = ''CrashLoopBackOff'', FirstTimestamp = 10\<rparr>
   = Inl NilDereference"
  by (simp add: notifySlack_def)

lemma loopBody_trace_fresh:
  assumes "x \<in> set (trace (loopBody env st d c))" "x = Build e \<or> x = Notify e"
  shows "st < FirstTimestamp e \<and> object d = EventObject e"
proof (cases "object d")
  case OtherObject
  with assms show ?thesis by (simp add: loopBody_def)
next
  case (EventObject e')
  show ?thesis
  proof (cases "st < FirstTimestamp e'")
    case False
    with assms EventObject show ?thesis by (simp add: loopBody_stale)
  next
    case True
    obtain fp where fp: "buildCachedEvent e' = Inr fp"
      using buildCachedEvent_total by blast
    have "e = e'"
    proof (cases "notifySlack env (http d) e'")
      case (Inl p)
      with assms show ?thesis
        by (auto simp: loopBody_fresh [OF EventObject True fp] split: if_splits)
    next
      case (Inr out)
      from notifySlack_out [OF Inr] have "Build e \<notin> set out" "Notify e \<notin> set out"
        by (auto split: if_splits)
      with assms Inr show ?thesis
        by (auto simp: loopBody_fresh [OF EventObject True fp] split: if_splits)
    qed
    with True EventObject show ?thesis by simp
  qed
qed

lemma trace_forRange_Cons:
  "set (trace (forRange body (d # ds) c))
     \<subseteq> set (trace (body d c)) \<union> set (trace (forRange body ds (store (body d c))))"
  by (auto simp: Let_def split: option.splits)

lemma forRange_trace_fresh:
  assumes "x \<in> set (trace (forRange (loopBody env st) ds c))" "x = Build e \<or> x = Notify e"
  shows "st < FirstTimestamp e"
  using assms
proof (induction ds arbitrary: c)
  case Nil
  then show ?case by simp
next
  case (Cons d ds)
  from trace_forRange_Cons [of "loopBody env st" d ds c] Cons.prems(1)
  consider "x \<in> set (trace (loopBody env st d c))"
    | "x \<in> set (trace (forRange (loopBody env st) ds (store (loopBody env st d c))))"
    by blast
  then show ?case
  proof cases
    case 1
    from loopBody_trace_fresh [OF 1 Cons.prems(2)] show ?thesis by simp
  next
    case 2
    from Cons.IH [OF 2 Cons.prems(2)] show ?thesis .
  qed
qed

text \<open>
  Claim C5. An event whose \<open>FirstTimestamp\<close> is not after the start time leaves the
  cache as it is and causes no effect at all: no read and no write of the cache, no call
  of \<open>buildCachedEvent\<close>, no call of \<open>notifySlack\<close>. In every run of the loop, from
  every cache, each call of \<open>buildCachedEvent\<close> and of \<open>notifySlack\<close> is for an event
  whose \<open>FirstTimestamp\<close> is after the start time.
\<close>

theorem C5_stale_event_suppression:
  "(object d = EventObject e \<and> \<not> st < FirstTimestamp e \<longrightarrow>
      loopBody env st d c = \<lparr>store = c, trace = [], crashed = None\<rparr>)
   \<and> (\<forall>x \<in> set (trace (forRange (loopBody env st) ds c)).
        \<forall>e'. x = Build e' \<or> x = Notify e' \<longrightarrow> st < FirstTimestamp e')"
proof (intro conjI impI ballI allI)
  assume "object d = EventObject e \<and> \<not> st < FirstTimestamp e"
  then show "loopBody env st d c = \<lparr>store = c, trace = [], crashed = None\<rparr>"
    by (simp add: loopBody_stale)
next
  fix x e'
  assume "x \<in> set (trace (forRange (loopBody env st) ds c))" "x = Build e' \<or> x = Notify e'"
  then show "st < FirstTimestamp e'" by (rule forRange_trace_fresh)
qed

theorem C5_stale_event_suppression_witness:
  "loopBody
     \<lparr>OPENSHIFT_CONSOLE_URL = ''https://console.example.org/'',
      SLACK_WEBHOOK_URL = ''https://hooks.slack.com/services/T0/B0/X0''\<rparr>
     10
     \<lparr>object = EventObject
        \<lparr>InvolvedObject = \<lparr>Kind = ''Pod'', Namespace = ''ns1'', Name = ''app-abc123''\<rparr>,
         Reason = ''BackOff'', Message = ''CrashLoopBackOff'', FirstTimestamp = 10\<rparr>,
      getTime = 20, setTime = 21,
      http = \<lparr>marshalErr = None, newRequestErr = None, doErr = None\<rparr>\<rparr>
     cachesvr
   = \<lparr>store = cachesvr, trace = [], crashed = None\<rparr>
   \<and> Notify
        \<lparr>InvolvedObject = \<lparr>Kind = ''Pod'', Namespace = ''ns1'', Name = ''app-abc123''\<rparr>,
         Reason = ''BackOff'', Message = ''CrashLoopBackOff'', FirstTimestamp = 11\<rparr>
      \<in> set (trace (forRange
          (loopBody
            \<lparr>OPENSHIFT_CONSOLE_URL = ''https://console.example.org/'',
             SLACK_WEBHOOK_URL = ''https://hooks.slack.com/services/T0/B0/X0''\<rparr>
            10)
          [\<lparr>object = EventObject
              \<lparr>InvolvedObject = \<lparr>Kind = ''Pod'', Namespace = ''ns1'', Name = ''app-abc123''\<rparr>,
               Reason = ''BackOff'', Message = ''CrashLoopBackOff'', FirstTimestamp = 10\<rparr>,
            getTime = 20, setTime = 21,
            http = \<lparr>marshalErr = None, newRequestErr = None, doErr = None\<rparr>\<rparr>,
           \<lparr>object = EventObject
              \<lparr>InvolvedObject = \<lparr>Kind = ''Pod'', Namespace = ''ns1'', Name = ''app-abc123''\<rparr>,
               Reason = ''BackOff'', Message = ''CrashLoopBackOff'', FirstTimestamp = 11\<rparr>,
            getTime = 22, setTime = 23,
            http = \<lparr>marshalErr = None, newRequestErr = None, doErr = None\<rparr>\<rparr>]
          cachesvr))
   \<and> (10 :: int) < FirstTimestamp
        \<lparr>InvolvedObject = \<lparr>Kind = ''Pod'', Namespace = ''ns1'', Name = ''app-abc123''\<rparr>,
         Reason = ''BackOff'', Message = ''CrashLoopBackOff'', FirstTimestamp = 11\<rparr>"
proof -
  let ?env = "\<lparr>OPENSHIFT_CONSOLE_URL = ''https://console.example.org/'',
      SLACK_WEBHOOK_URL = ''https://hooks.slack.com/services/T0/B0/X0''\<rparr>"
  let ?old = "\<lparr>InvolvedObject = \<lparr>Kind = ''Pod'', Namespace = ''ns1'', Name = ''app-abc123''\<rparr>,
         Reason = ''BackOff'', Message = ''CrashLoopBackOff'', FirstTimestamp = 10\<rparr>"
  let ?new = "\<lparr>InvolvedObject = \<lparr>Kind = ''Pod'', Namespace = ''ns1'', Name = ''app-abc123''\<rparr>,
         Reason = ''BackOff'', Message = ''CrashLoopBackOff'', FirstTimestamp = 11\<rparr>"
  let ?d1 = "\<lparr>object = EventObject ?old, getTime = 20, setTime = 21,
      http = \<lparr>marshalErr = None, newRequestErr = None, doErr = None\<rparr>\<rparr>"
  let ?d2 = "\<lparr>object = EventObject ?new, getTime = 22, setTime = 23,
      http = \<lparr>marshalErr = None, newRequestErr = None, doErr = None\<rparr>\<rparr>"
  note inst = C5_stale_event_suppression [where d = ?d1 and e = ?old and st = 10
      and env = ?env and c = cachesvr and ds = "[?d1, ?d2]"]
  from inst [THEN conjunct1]
  have a: "loopBody ?env 10 ?d1 cachesvr = \<lparr>store = cachesvr, trace = [], crashed = None\<rparr>"
    by simp
  have m: "Notify ?new \<in> set (trace (forRange (loopBody ?env 10) [?d1, ?d2] cachesvr))"
    by code_simp
  from inst [THEN conjunct2, rule_format, OF m, of ?new]
  have b: "(10 :: int) < FirstTimestamp ?new" by simp
  from a m b show ?thesis by blast
qed

lemma loopBody_no_crash:
  assumes "object d = EventObject e" "marshalErr (http d) = None" "newRequestErr (http d) = None"
  shows "crashed (loopBody env st d c) = None"
proof (cases "st < FirstTimestamp e")
  case False
  with assms(1) show ?thesis by (simp add: loopBody_stale)
next
  case True
  obtain fp where fp: "buildCachedEvent e = Inr fp"
    using buildCachedEvent_total by blast
  obtain out where "notifySlack env (http d) e = Inr out"
    using notifySlack_ok [OF assms(2,3)] by blast
  then show ?thesis
    by (simp add: loopBody_fresh [OF assms(1) True fp])
qed

lemma forRange_no_crash:
  assumes "\<forall>d \<in> set ds. (\<exists>e. object d = EventObject e)
      \<and> marshalErr (http d) = None \<and> newRequestErr (http d) = None"
  shows "crashed (forRange (loopBody env st) ds c) = None"
  using assms
proof (induction ds arbitrary: c)
  case Nil
  then show ?case by simp
next
  case (Cons d ds)
  from Cons.prems obtain e where "object d = EventObject e"
    "marshalErr (http d) = None" "newRequestErr (http d) = None"
    by auto
  then have "crashed (loopBody env st d c) = None" by (rule loopBody_no_crash)
  moreover from Cons.prems Cons.IH
  have "crashed (forRange (loopBody env st) ds (store (loopBody env st d c))) = None"
    by simp
  ultimately show ?case by (simp add: Let_def)
qed

text \<open>
  Claim C8 as stated fails on the code. The first call of \<^verbatim>\<open>Watch\<close> returns an error:
  the driver ends with the panic, without a sleep, and the second call is never made.
\<close>

theorem C8_subscription_errors_counterexample:
  "retryDriver
     \<lparr>OPENSHIFT_CONSOLE_URL = ''https://console.example.org/'',
      SLACK_WEBHOOK_URL = ''https://hooks.slack.com/services/T0/B0/X0''\<rparr>
     [\<lparr>startTime = 0, watchResult = Inl ''dial tcp 10.0.0.1:443: connection refused''\<rparr>,
      \<lparr>startTime = 6000000000, watchResult = Inr []\<rparr>]
     cachesvr
   = \<lparr>store = cachesvr, trace = [Watch ''type=Warning''],
      crashed = Some (Panicked ''dial tcp 10.0.0.1:443: connection refused'')\<rparr>"
  by (simp add: watchEvents_def)

text \<open>
  Claim C8, as amended. The claim lets the driver sleep and subscribe again after a failed
  \<^verbatim>\<open>Watch\<close>. The code answers the error of \<^verbatim>\<open>Watch\<close> with \<^verbatim>\<open>panic(err.Error())\<close>
  and the driver does not recover: the run ends there, with no sleep and no further call.
  When \<^verbatim>\<open>Watch\<close> succeeds and the channel is closed after deliveries that are all events,
  with serialization and request construction succeeding in every notification, the
  driver sleeps five seconds and goes on with the next call.
\<close>

theorem C8_subscription_errors:
  "(watchResult a = Inl err \<longrightarrow>
      retryDriver env (a # as) c
        = \<lparr>store = c, trace = [Watch ''type=Warning''], crashed = Some (Panicked err)\<rparr>)
   \<and> (watchResult a = Inr ds
       \<and> (\<forall>d \<in> set ds. (\<exists>e. object d = EventObject e)
             \<and> marshalErr (http d) = None \<and> newRequestErr (http d) = None) \<longrightarrow>
      retryDriver env (a # as) c
        = (let r = forRange (loopBody env (startTime a)) ds c;
               r' = retryDriver env as (store r)
           in r'\<lparr>trace := Watch ''type=Warning'' # trace r @ Sleep (5 * Second) # trace r'\<rparr>))"
proof (intro conjI impI)
  assume "watchResult a = Inl err"
  then show "retryDriver env (a # as) c
        = \<lparr>store = c, trace = [Watch ''type=Warning''], crashed = Some (Panicked err)\<rparr>"
    by (simp add: watchEvents_def)
next
  assume h: "watchResult a = Inr ds
       \<and> (\<forall>d \<in> set ds. (\<exists>e. object d = EventObject e)
             \<and> marshalErr (http d) = None \<and> newRequestErr (http d) = None)"
  then have "crashed (forRange (loopBody env (startTime a)) ds c) = None"
    using forRange_no_crash by blast
  with h show "retryDriver env (a # as) c
        = (let r = forRange (loopBody env (startTime a)) ds c;
               r' = retryDriver env as (store r)
           in r'\<lparr>trace := Watch ''type=Warning'' # trace r @ Sleep (5 * Second) # trace r'\<rparr>)"
    by (simp add: watchEvents_def Let_def)
qed

theorem C8_subscription_errors_witness:
  "retryDriver
     \<lparr>OPENSHIFT_CONSOLE_URL = ''https://console.example.org/'',
      SLACK_WEBHOOK_URL = ''https://hooks.slack.com/services/T0/B0/X0''\<rparr>
     [\<lparr>startTime = 0, watchResult = Inl ''the server could not find the requested resource''\<rparr>]
     cachesvr
   = \<lparr>store = cachesvr, trace = [Watch ''type=Warning''],
      crashed = Some (Panicked ''the server could not find the requested resource'')\<rparr>
   \<and> crashed (retryDriver
     \<lparr>OPENSHIFT_CONSOLE_URL = ''https://console.example.org/'',
      SLACK_WEBHOOK_URL = ''https://hooks.slack.com/services/T0/B0/X0''\<rparr>
     [\<lparr>startTime = 0, watchResult = Inr
        [\<lparr>object = EventObject
            \<lparr>InvolvedObject = \<lparr>Kind = ''Pod'', Namespace = ''ns1'', Name = ''app-abc123''\<rparr>,
             Reason = ''BackOff'', Message = ''CrashLoopBackOff'', FirstTimestamp = 10\<rparr>,
          getTime = 20, setTime = 21,
          http = \<lparr>marshalErr = None, newRequestErr = None, doErr = None\<rparr>\<rparr>]\<rparr>,
      \<lparr>startTime = 6000000000, watchResult = Inr []\<rparr>]
     cachesvr) = None
   \<and> filter (\<lambda>x. x = Sleep 5000000000 \<or> x = Watch ''type=Warning'')
       (trace (retryDriver
     \<lparr>OPENSHIFT_CONSOLE_URL = ''https://console.example.org/'',
      SLACK_WEBHOOK_URL = ''https://hooks.slack.com/services/T0/B0/X0''\<rparr>
     [\<lparr>startTime = 0, watchResult = Inr
        [\<lparr>object = EventObject
            \<lparr>InvolvedObject = \<lparr>Kind = ''Pod'', Namespace = ''ns1'', Name = ''app-abc123''\<rparr>,
             Reason = ''BackOff'', Message = ''CrashLoopBackOff'', FirstTimestamp = 10\<rparr>,
          getTime = 20, setTime = 21,
          http = \<lparr>marshalErr = None, newRequestErr = None, doErr = None\<rparr>\<rparr>]\<rparr>,
      \<lparr>startTime = 6000000000, watchResult = Inr []\<rparr>]
     cachesvr))
     = [Watch ''type=Warning'', Sleep 5000000000, Watch ''type=Warning'', Sleep 5000000000]"
proof -
  let ?env = "\<lparr>OPENSHIFT_CONSOLE_URL = ''https://console.example.org/'',
      SLACK_WEBHOOK_URL = ''https://hooks.slack.com/services/T0/B0/X0''\<rparr>"
  let ?d = "\<lparr>object = EventObject
            \<lparr>InvolvedObject = \<lparr>Kind = ''Pod'', Namespace = ''ns1'', Name = ''app-abc123''\<rparr>,
             Reason = ''BackOff'', Message = ''CrashLoopBackOff'', FirstTimestamp = 10\<rparr>,
          getTime = 20, setTime = 21,
          http = \<lparr>marshalErr = None, newRequestErr = None, doErr = None\<rparr>\<rparr>"
  let ?a1 = "\<lparr>startTime = 0, watchResult = Inr [?d]\<rparr>"
  let ?a2 = "\<lparr>startTime = 6000000000, watchResult = Inr []\<rparr>"
  let ?f = "\<lparr>startTime = 0,
      watchResult = Inl ''the server could not find the requested resource''\<rparr>"
  let ?rhs = "let r = forRange (loopBody ?env (startTime ?a1)) [?d] cachesvr;
                  r' = retryDriver ?env [?a2] (store r)
    in r'\<lparr>trace := Watch ''type=Warning'' # trace r @ Sleep (5 * Second) # trace r'\<rparr>"
  from C8_subscription_errors [where a = ?f and env = ?env and as = "[]" and c = cachesvr
      and err = "''the server could not find the requested resource''", THEN conjunct1]
  have a: "retryDriver ?env [?f] cachesvr
    = \<lparr>store = cachesvr, trace = [Watch ''type=Warning''],
       crashed = Some (Panicked ''the server could not find the requested resource'')\<rparr>"
    by simp
  from C8_subscription_errors [where a = ?a1 and env = ?env and as = "[?a2]"
      and c = cachesvr and ds = "[?d]", THEN conjunct2]
  have eq: "retryDriver ?env [?a1, ?a2] cachesvr = ?rhs"
    by simp
  have "crashed ?rhs = None" by code_simp
  then have b: "crashed (retryDriver ?env [?a1, ?a2] cachesvr) = None"
    by (simp only: eq)
  have "filter (\<lambda>x. x = Sleep 5000000000 \<or> x = Watch ''type=Warning'') (trace ?rhs)
     = [Watch ''type=Warning'', Sleep 5000000000, Watch ''type=Warning'', Sleep 5000000000]"
    by code_simp
  then have c: "filter (\<lambda>x. x = Sleep 5000000000 \<or> x = Watch ''type=Warning'')
       (trace (retryDriver ?env [?a1, ?a2] cachesvr))
     = [Watch ''type=Warning'', Sleep 5000000000, Watch ''type=Warning'', Sleep 5000000000]"
    by (simp only: eq)
  from a b c show ?thesis by blast
qed

section \<open>Deduplication\<close>

lemma notified_append: "notified (xs @ ys) = notified xs @ notified ys"
  by (induction xs rule: notified.induct) simp_all

lemma notified_out:
  assumes "notifySlack env h e = Inr out"
  shows "notified out = []"
  using notifySlack_out [OF assms] by (auto split: if_splits)

lemma Get_slot: "Get c ''last_slack_event'' t = Some v \<Longrightarrow> slot c = Some v"
  by (auto simp: Get_def slot_def split: option.splits if_splits)

lemma slot_Set: "slot (Set c ''last_slack_event'' v d t) = Some v"
  by (simp add: Set_def slot_def Let_def)

lemma Get_live: "Get c ''last_slack_event'' t \<noteq> None \<Longrightarrow> Get c ''last_slack_event'' t = slot c"
  by (auto simp: Get_def slot_def split: option.splits if_splits)

text \<open>What one step on an event after the start time does, by its verdict.\<close>

lemma loopBody_suppress:
  assumes "object d = EventObject e" "st < FirstTimestamp e" "buildCachedEvent e = Inr fp"
    "Get c ''last_slack_event'' (getTime d) = Some fp"
  shows "loopBody env st d c
    = \<lparr>store = c, trace = [CacheGet ''last_slack_event'', Build e], crashed = None\<rparr>"
  using assms(4) by (simp add: loopBody_fresh [OF assms(1-3)])

lemma loopBody_notify:
  assumes "object d = EventObject e" "st < FirstTimestamp e" "buildCachedEvent e = Inr fp"
    "Get c ''last_slack_event'' (getTime d) \<noteq> Some fp"
  shows "notified (trace (loopBody env st d c)) = [e]
    \<and> (crashed (loopBody env st d c) = None \<longrightarrow>
         store (loopBody env st d c) = Set c ''last_slack_event'' fp 0 (setTime d)
         \<and> (\<exists>tr. trace (loopBody env st d c) = tr @ [CacheSet ''last_slack_event'' fp]
              \<and> notified tr = [e]))"
proof (cases "notifySlack env (http d) e")
  case (Inl p)
  with assms(4) show ?thesis
    by (simp add: loopBody_fresh [OF assms(1-3)])
next
  case (Inr out)
  note no = notified_out [OF Inr]
  show ?thesis
  proof (cases "Get c ''last_slack_event'' (getTime d) = None")
    case True
    with Inr no have "trace (loopBody env st d c)
        = ([CacheGet ''last_slack_event'', Notify e] @ out @ [Build e])
            @ [CacheSet ''last_slack_event'' fp]"
      "notified ([CacheGet ''last_slack_event'', Notify e] @ out @ [Build e]) = [e]"
      by (simp_all add: loopBody_fresh [OF assms(1-3)] notified_append)
    moreover from True Inr no have "notified (trace (loopBody env st d c)) = [e]"
      "store (loopBody env st d c) = Set c ''last_slack_event'' fp 0 (setTime d)"
      by (simp_all add: loopBody_fresh [OF assms(1-3)] notified_append)
    ultimately show ?thesis by blast
  next
    case False
    with assms(4) Inr no have "trace (loopBody env st d c)
        = ([CacheGet ''last_slack_event'', Build e, Notify e] @ out)
            @ [CacheSet ''last_slack_event'' fp]"
      "notified ([CacheGet ''last_slack_event'', Build e, Notify e] @ out) = [e]"
      by (simp_all add: loopBody_fresh [OF assms(1-3)] notified_append)
    moreover from False assms(4) Inr no have "notified (trace (loopBody env st d c)) = [e]"
      "store (loopBody env st d c) = Set c ''last_slack_event'' fp 0 (setTime d)"
      by (simp_all add: loopBody_fresh [OF assms(1-3)] notified_append)
    ultimately show ?thesis by blast
  qed
qed

lemma loopBody_slot:
  assumes "object d = EventObject e" "st < FirstTimestamp e" "buildCachedEvent e = Inr fp"
    "crashed (loopBody env st d c) = None"
  shows "slot (store (loopBody env st d c)) = Some fp"
proof (cases "Get c ''last_slack_event'' (getTime d) = Some fp")
  case True
  from loopBody_suppress [OF assms(1-3) True] Get_slot [OF True] show ?thesis by simp
next
  case False
  from loopBody_notify [OF assms(1-3) False] assms(4) show ?thesis
    by (simp add: slot_Set)
qed

text \<open>
  Claim C1 as stated fails on the code. Two events of the same fingerprint, both after the
  start time, are delivered one after the other; the first is written to the cache at
  second 21 and the second reads the cache at second 82, after the entry has expired.
  Both are notified.
\<close>

theorem C1_dedup_collapse_counterexample:
  "buildCachedEvent
     \<lparr>InvolvedObject = \<lparr>Kind = ''Pod'', Namespace = ''ns1'', Name = ''app-abc123''\<rparr>,
      Reason = ''BackOff'', Message = ''CrashLoopBackOff'', FirstTimestamp = 10\<rparr>
   = buildCachedEvent
     \<lparr>InvolvedObject = \<lparr>Kind = ''Pod'', Namespace = ''ns1'', Name = ''app-abc123''\<rparr>,
      Reason = ''BackOff'', Message = ''CrashLoopBackOff'', FirstTimestamp = 11\<rparr>
   \<and> notified (trace (forRange
       (loopBody
          \<lparr>OPENSHIFT_CONSOLE_URL = ''https://console.example.org/'',
           SLACK_WEBHOOK_URL = ''https://hooks.slack.com/services/T0/B0/X0''\<rparr>
          0)
       [\<lparr>object = EventObject
            \<lparr>InvolvedObject = \<lparr>Kind = ''Pod'', Namespace = ''ns1'', Name = ''app-abc123''\<rparr>,
             Reason = ''BackOff'', Message = ''CrashLoopBackOff'', FirstTimestamp = 10\<rparr>,
          getTime = 20000000000, setTime = 21000000000,
          http = \<lparr>marshalErr = None, newRequestErr = None, doErr = None\<rparr>\<rparr>,
        \<lparr>object = EventObject
            \<lparr>InvolvedObject = \<lparr>Kind = ''Pod'', Namespace = ''ns1'', Name = ''app-abc123''\<rparr>,
             Reason = ''BackOff'', Message = ''CrashLoopBackOff'', FirstTimestamp = 11\<rparr>,
          getTime = 82000000000, setTime = 83000000000,
          http = \<lparr>marshalErr = None, newRequestErr = None, doErr = None\<rparr>\<rparr>]
       cachesvr))
   = [\<lparr>InvolvedObject = \<lparr>Kind = ''Pod'', Namespace = ''ns1'', Name = ''app-abc123''\<rparr>,
       Reason = ''BackOff'', Message = ''CrashLoopBackOff'', FirstTimestamp = 10\<rparr>,
      \<lparr>InvolvedObject = \<lparr>Kind = ''Pod'', Namespace = ''ns1'', Name = ''app-abc123''\<rparr>,
       Reason = ''BackOff'', Message = ''CrashLoopBackOff'', FirstTimestamp = 11\<rparr>]"
  by code_simp

text \<open>
  Claim C1, as amended. The claim lets the second of two consecutive events of the same
  fingerprint never notify. The cache entry expires one minute after it was written, and
  an expired entry is absent: the second event then notifies again. When the entry left by
  the step of the first event has not expired at the time the second event reads the
  cache, the step of the second event calls no notifier and leaves the cache as it is.
  A step on an event after the start time calls the notifier exactly when the cache
  reports no entry or another fingerprint.
\<close>

theorem C1_dedup_collapse:
  "(object d1 = EventObject e1 \<and> object d2 = EventObject e2
    \<and> st1 < FirstTimestamp e1 \<and> st2 < FirstTimestamp e2
    \<and> buildCachedEvent e1 = buildCachedEvent e2
    \<and> crashed (loopBody env st1 d1 c) = None
    \<and> Get (store (loopBody env st1 d1 c)) ''last_slack_event'' (getTime d2) \<noteq> None
    \<longrightarrow> notified (trace (loopBody env st2 d2 (store (loopBody env st1 d1 c)))) = []
      \<and> store (loopBody env st2 d2 (store (loopBody env st1 d1 c)))
          = store (loopBody env st1 d1 c)
      \<and> crashed (loopBody env st2 d2 (store (loopBody env st1 d1 c))) = None)
   \<and> (object d = EventObject e \<and> st < FirstTimestamp e
    \<longrightarrow> (notified (trace (loopBody env st d c)) = [e]
          \<longleftrightarrow> Get c ''last_slack_event'' (getTime d) = None
            \<or> map_option Inr (Get c ''last_slack_event'' (getTime d))
                 \<noteq> Some (buildCachedEvent e))
      \<and> (notified (trace (loopBody env st d c)) = []
          \<longleftrightarrow> map_option Inr (Get c ''last_slack_event'' (getTime d))
                 = Some (buildCachedEvent e)))"
proof (intro conjI impI)
  assume h: "object d1 = EventObject e1 \<and> object d2 = EventObject e2
    \<and> st1 < FirstTimestamp e1 \<and> st2 < FirstTimestamp e2
    \<and> buildCachedEvent e1 = buildCachedEvent e2
    \<and> crashed (loopBody env st1 d1 c) = None
    \<and> Get (store (loopBody env st1 d1 c)) ''last_slack_event'' (getTime d2) \<noteq> None"
  let ?c1 = "store (loopBody env st1 d1 c)"
  obtain fp where fp1: "buildCachedEvent e1 = Inr fp"
    using buildCachedEvent_total by blast
  with h have fp2: "buildCachedEvent e2 = Inr fp" by simp
  from h have o1: "object d1 = EventObject e1" and t1: "st1 < FirstTimestamp e1"
    and o2: "object d2 = EventObject e2" and t2: "st2 < FirstTimestamp e2"
    and ok: "crashed (loopBody env st1 d1 c) = None"
    and live: "Get ?c1 ''last_slack_event'' (getTime d2) \<noteq> None"
    by blast+
  from loopBody_slot [OF o1 t1 fp1 ok] Get_live [OF live]
  have "Get ?c1 ''last_slack_event'' (getTime d2) = Some fp" by simp
  from loopBody_suppress [OF o2 t2 fp2 this]
  have r2: "loopBody env st2 d2 ?c1
    = \<lparr>store = ?c1, trace = [CacheGet ''last_slack_event'', Build e2], crashed = None\<rparr>" .
  show "notified (trace (loopBody env st2 d2 ?c1)) = []" by (simp add: r2)
  show "store (loopBody env st2 d2 ?c1) = ?c1" by (simp add: r2)
  show "crashed (loopBody env st2 d2 ?c1) = None" by (simp add: r2)
next
  assume h: "object d = EventObject e \<and> st < FirstTimestamp e"
  then have o: "object d = EventObject e" and t: "st < FirstTimestamp e" by blast+
  obtain fp where fp: "buildCachedEvent e = Inr fp"
    using buildCachedEvent_total by blast
  have verdict: "notified (trace (loopBody env st d c))
      = (if Get c ''last_slack_event'' (getTime d) = Some fp then [] else [e])"
  proof (cases "Get c ''last_slack_event'' (getTime d) = Some fp")
    case True
    from loopBody_suppress [OF o t fp True] True show ?thesis by simp
  next
    case False
    from loopBody_notify [OF o t fp False] False show ?thesis by simp
  qed
  show "notified (trace (loopBody env st d c)) = [e]
          \<longleftrightarrow> Get c ''last_slack_event'' (getTime d) = None
            \<or> map_option Inr (Get c ''last_slack_event'' (getTime d))
                 \<noteq> Some (buildCachedEvent e)"
    by (cases "Get c ''last_slack_event'' (getTime d)") (auto simp: verdict fp)
  show "notified (trace (loopBody env st d c)) = []
          \<longleftrightarrow> map_option Inr (Get c ''last_slack_event'' (getTime d))
                 = Some (buildCachedEvent e)"
    by (cases "Get c ''last_slack_event'' (getTime d)") (auto simp: verdict fp)
qed

theorem C1_dedup_collapse_witness:
  "notified (trace (loopBody
       \<lparr>OPENSHIFT_CONSOLE_URL = ''https://console.example.org/'',
        SLACK_WEBHOOK_URL = ''https://hooks.slack.com/services/T0/B0/X0''\<rparr>
       0
       \<lparr>object = EventObject
            \<lparr>InvolvedObject = \<lparr>Kind = ''Pod'', Namespace = ''ns1'', Name = ''app-abc123''\<rparr>,
             Reason = ''BackOff'', Message = ''CrashLoopBackOff'', FirstTimestamp = 10\<rparr>,
        getTime = 20000000000, setTime = 21000000000,
        http = \<lparr>marshalErr = None, newRequestErr = None, doErr = None\<rparr>\<rparr>
       cachesvr))
   = [\<lparr>InvolvedObject = \<lparr>Kind = ''Pod'', Namespace = ''ns1'', Name = ''app-abc123''\<rparr>,
       Reason = ''BackOff'', Message = ''CrashLoopBackOff'', FirstTimestamp = 10\<rparr>]
   \<and> notified (trace (loopBody
       \<lparr>OPENSHIFT_CONSOLE_URL = ''https://console.example.org/'',
        SLACK_WEBHOOK_URL = ''https://hooks.slack.com/services/T0/B0/X0''\<rparr>
       0
       \<lparr>object = EventObject
            \<lparr>InvolvedObject = \<lparr>Kind = ''Pod'', Namespace = ''ns1'', Name = ''app-abc123''\<rparr>,
             Reason = ''BackOff'', Message = ''CrashLoopBackOff'', FirstTimestamp = 11\<rparr>,
        getTime = 22000000000, setTime = 23000000000,
        http = \<lparr>marshalErr = None, newRequestErr = None, doErr = None\<rparr>\<rparr>
       (store (loopBody
         \<lparr>OPENSHIFT_CONSOLE_URL = ''https://console.example.org/'',
          SLACK_WEBHOOK_URL = ''https://hooks.slack.com/services/T0/B0/X0''\<rparr>
         0
         \<lparr>object = EventObject
            \<lparr>InvolvedObject = \<lparr>Kind = ''Pod'', Namespace = ''ns1'', Name = ''app-abc123''\<rparr>,
             Reason = ''BackOff'', Message = ''CrashLoopBackOff'', FirstTimestamp = 10\<rparr>,
          getTime = 20000000000, setTime = 21000000000,
          http = \<lparr>marshalErr = None, newRequestErr = None, doErr = None\<rparr>\<rparr>
         cachesvr))))
   = []"
proof -
  let ?env = "\<lparr>OPENSHIFT_CONSOLE_URL = ''https://console.example.org/'',
        SLACK_WEBHOOK_URL = ''https://hooks.slack.com/services/T0/B0/X0''\<rparr>"
  let ?A = "\<lparr>InvolvedObject = \<lparr>Kind = ''Pod'', Namespace = ''ns1'', Name = ''app-abc123''\<rparr>,
             Reason = ''BackOff'', Message = ''CrashLoopBackOff'', FirstTimestamp = 10\<rparr>"
  let ?B = "\<lparr>InvolvedObject = \<lparr>Kind = ''Pod'', Namespace = ''ns1'', Name = ''app-abc123''\<rparr>,
             Reason = ''BackOff'', Message = ''CrashLoopBackOff'', FirstTimestamp = 11\<rparr>"
  let ?dA = "\<lparr>object = EventObject ?A, getTime = 20000000000, setTime = 21000000000,
        http = \<lparr>marshalErr = None, newRequestErr = None, doErr = None\<rparr>\<rparr>"
  let ?dB = "\<lparr>object = EventObject ?B, getTime = 22000000000, setTime = 23000000000,
        http = \<lparr>marshalErr = None, newRequestErr = None, doErr = None\<rparr>\<rparr>"
  have same: "buildCachedEvent ?A = buildCachedEvent ?B" by code_simp
  have ok: "crashed (loopBody ?env 0 ?dA cachesvr) = None" by code_simp
  have live: "Get (store (loopBody ?env 0 ?dA cachesvr)) ''last_slack_event'' (getTime ?dB)
      \<noteq> None"
    by code_simp
  have empty: "Get cachesvr ''last_slack_event'' (getTime ?dA) = None" by code_simp
  note inst = C1_dedup_collapse [where ?d1.0 = ?dA and ?e1.0 = ?A and ?d2.0 = ?dB
      and ?e2.0 = ?B and ?st1.0 = 0 and ?st2.0 = 0 and env = ?env and c = cachesvr
      and d = ?dA and e = ?A and st = 0]
  from inst [THEN conjunct1] same ok live
  have b: "notified (trace (loopBody ?env 0 ?dB (store (loopBody ?env 0 ?dA cachesvr)))) = []"
    by simp
  from inst [THEN conjunct2] empty
  have a: "notified (trace (loopBody ?env 0 ?dA cachesvr)) = [?A]"
    by simp
  from a b show ?thesis by blast
qed

text \<open>
  The janitor is not seen by the watch loop: after a run of \<open>DeleteExpired\<close> at an
  instant not later than the next read of the cache, \<open>Get\<close> returns what it would have
  returned without it, and the step does what it would have done.
\<close>

lemma Get_DeleteExpired:
  "t \<le> now \<Longrightarrow> Get (DeleteExpired c t) k now = Get c k now"
  by (simp add: Get_def DeleteExpired_def split: option.splits)

lemma loopBody_DeleteExpired:
  assumes "t \<le> getTime d"
  shows "trace (loopBody env st d (DeleteExpired c t)) = trace (loopBody env st d c)
     \<and> crashed (loopBody env st d (DeleteExpired c t)) = crashed (loopBody env st d c)"
  by (simp add: loopBody_def Get_DeleteExpired [OF assms]
      split: Object.splits option.splits sum.splits)

text \<open>
  No step of the watch loop removes the entry, and a step that notifies and returns ends
  with the write of the fingerprint (\<open>loopBody_notify\<close>).
\<close>

lemma loopBody_keeps:
  assumes "items c ''last_slack_event'' \<noteq> None"
  shows "items (store (loopBody env st d c)) ''last_slack_event'' \<noteq> None"
  using assms
  by (auto simp: loopBody_def Set_def Let_def split: Object.splits option.splits sum.splits)

text \<open>
  Claim C6: the slot holds the fingerprint of the most recently notified event, and every
  notification is followed in the same step by the write of that fingerprint. The code
  does not do the second, on an input it can receive. With a webhook URL that does not
  parse, the step on an event after the start time reads the empty cache and calls
  \<open>notifySlack\<close>, which panics on the nil request; \<^verbatim>\<open>cachesvr.Set\<close> is not reached
  and the cache is left as it was.
\<close>

theorem C6_notification_without_overwrite:
  "loopBody
     \<lparr>OPENSHIFT_CONSOLE_URL = ''https://console.example.org/'',
      SLACK_WEBHOOK_URL = ''://hooks.slack.com/services/T0/B0/X0''\<rparr>
     0
     \<lparr>object = EventObject
        \<lparr>InvolvedObject = \<lparr>Kind = ''Pod'', Namespace = ''ns1'', Name = ''app-abc123''\<rparr>,
         Reason = ''BackOff'', Message = ''CrashLoopBackOff'', FirstTimestamp = 10\<rparr>,
      getTime = 20, setTime = 21,
      http = \<lparr>marshalErr = None,
              newRequestErr =
                Some ''parse ://hooks.slack.com/services/T0/B0/X0: missing protocol scheme'',
              doErr = None\<rparr>\<rparr>
     cachesvr
   = \<lparr>store = cachesvr,
      trace = [CacheGet ''last_slack_event'',
               Notify
                 \<lparr>InvolvedObject =
                    \<lparr>Kind = ''Pod'', Namespace = ''ns1'', Name = ''app-abc123''\<rparr>,
                  Reason = ''BackOff'', Message = ''CrashLoopBackOff'', FirstTimestamp = 10\<rparr>],
      crashed = Some NilDereference\<rparr>"
  by (simp add: loopBody_def Get_def cachesvr_def New_def notifySlack_def)

section \<open>The two listings of the watch loop\<close>

lemma loopBody_main_stale:
  "object d = EventObject e \<Longrightarrow> \<not> st < FirstTimestamp e \<Longrightarrow>
   loopBody_main env st d c = \<lparr>store = c, trace = [], crashed = None\<rparr>"
  by (simp add: loopBody_main_def)

lemma loopBody_main_fresh:
  assumes "object d = EventObject e" "st < FirstTimestamp e"
  shows "loopBody_main env st d c =
     (if Get c ''last_slack_event'' (getTime d) = Some (Message e)
      then \<lparr>store = c, trace = [CacheGet ''last_slack_event''], crashed = None\<rparr>
      else case notifySlack env (http d) e of
             Inl p \<Rightarrow>
               \<lparr>store = c, trace = [CacheGet ''last_slack_event'', Notify e],
                crashed = Some p\<rparr>
           | Inr out \<Rightarrow>
               \<lparr>store = Set c ''last_slack_event'' (Message e) 0 (setTime d),
                trace = [CacheGet ''last_slack_event'', Notify e] @ out
                  @ [CacheSet ''last_slack_event'' (Message e)],
                crashed = None\<rparr>)"
  using assms by (simp add: loopBody_main_def split: option.splits sum.splits)

lemma related_Get:
  assumes rel: "related E c1 c2" and e: "e \<in> E" and fp: "buildCachedEvent e = Inr fp"
    and pw: "\<forall>a \<in> E. \<forall>b \<in> E.
      (buildCachedEvent a = buildCachedEvent b) = (Message a = Message b)"
  shows "(Get c1 ''last_slack_event'' t = Some (Message e))
       = (Get c2 ''last_slack_event'' t = Some fp)"
proof (cases "items c1 ''last_slack_event''")
  case None
  with rel have "items c2 ''last_slack_event'' = None"
    by (auto simp: related_def split: option.splits)
  with None show ?thesis by (simp add: Get_def)
next
  case (Some i1)
  with rel obtain i2 e0 where i2: "items c2 ''last_slack_event'' = Some i2"
    and x: "Expiration i1 = Expiration i2"
    and e0: "e0 \<in> E" "Object i1 = Message e0" "buildCachedEvent e0 = Inr (Object i2)"
    by (auto simp: related_def split: option.splits)
  from pw e0(1) e have "(buildCachedEvent e0 = buildCachedEvent e) = (Message e0 = Message e)"
    by blast
  with e0 fp have "(Object i2 = fp) = (Object i1 = Message e)" by simp
  with Some i2 x show ?thesis by (simp add: Get_def)
qed

lemma related_Set:
  assumes "related E c1 c2" "e \<in> E" "buildCachedEvent e = Inr fp"
  shows "related E (Set c1 ''last_slack_event'' (Message e) 0 t)
                   (Set c2 ''last_slack_event'' fp 0 t)"
  using assms by (auto simp: related_def Set_def Let_def)

lemma step_same:
  assumes rel: "related E c1 c2" and e: "e \<in> E" and obj: "object d = EventObject e"
    and pw: "\<forall>a \<in> E. \<forall>b \<in> E.
      (buildCachedEvent a = buildCachedEvent b) = (Message a = Message b)"
  shows "(notified (trace (loopBody_main env st d c1)) \<noteq> [])
        = (notified (trace (loopBody env st d c2)) \<noteq> [])
     \<and> crashed (loopBody_main env st d c1) = crashed (loopBody env st d c2)
     \<and> (crashed (loopBody_main env st d c1) = None \<longrightarrow>
          related E (store (loopBody_main env st d c1)) (store (loopBody env st d c2)))"
proof (cases "st < FirstTimestamp e")
  case False
  with obj rel show ?thesis by (simp add: loopBody_stale loopBody_main_stale)
next
  case True
  obtain fp where fp: "buildCachedEvent e = Inr fp"
    using buildCachedEvent_total by blast
  note g = related_Get [OF rel e fp pw, of "getTime d"]
  show ?thesis
  proof (cases "Get c2 ''last_slack_event'' (getTime d) = Some fp")
    case hit: True
    with g have "Get c1 ''last_slack_event'' (getTime d) = Some (Message e)" by simp
    with hit rel show ?thesis
      by (simp add: loopBody_fresh [OF obj True fp] loopBody_main_fresh [OF obj True])
  next
    case miss: False
    with g have miss1: "Get c1 ''last_slack_event'' (getTime d) \<noteq> Some (Message e)" by simp
    show ?thesis
    proof (cases "notifySlack env (http d) e")
      case (Inl p)
      with miss miss1 show ?thesis
        by (simp add: loopBody_fresh [OF obj True fp] loopBody_main_fresh [OF obj True])
    next
      case (Inr out)
      with miss miss1 related_Set [OF rel e fp, of "setTime d"] show ?thesis
        by (simp add: loopBody_fresh [OF obj True fp] loopBody_main_fresh [OF obj True])
    qed
  qed
qed

lemma decisions_same:
  assumes "related E c1 c2"
    and "\<forall>d \<in> set ds. \<forall>e. object d = EventObject e \<longrightarrow> e \<in> E"
    and pw: "\<forall>a \<in> E. \<forall>b \<in> E.
      (buildCachedEvent a = buildCachedEvent b) = (Message a = Message b)"
  shows "decisions (loopBody_main env st) ds c1 = decisions (loopBody env st) ds c2"
  using assms(1,2)
proof (induction ds arbitrary: c1 c2)
  case Nil
  then show ?case by simp
next
  case (Cons d ds)
  show ?case
  proof (cases "object d")
    case OtherObject
    then show ?thesis by (simp add: loopBody_def loopBody_main_def)
  next
    case (EventObject e)
    with Cons.prems(2) have e: "e \<in> E" by simp
    from step_same [OF Cons.prems(1) e EventObject pw, of env st]
    have s: "(notified (trace (loopBody_main env st d c1)) \<noteq> [])
        = (notified (trace (loopBody env st d c2)) \<noteq> [])"
      "crashed (loopBody_main env st d c1) = crashed (loopBody env st d c2)"
      "crashed (loopBody_main env st d c1) = None \<longrightarrow>
          related E (store (loopBody_main env st d c1)) (store (loopBody env st d c2))"
      by blast+
    show ?thesis
    proof (cases "crashed (loopBody env st d c2)")
      case (Some p)
      with s show ?thesis by (simp add: Let_def)
    next
      case None
      with s have "related E (store (loopBody_main env st d c1)) (store (loopBody env st d c2))"
        by simp
      from Cons.IH [OF this] Cons.prems(2)
      have "decisions (loopBody_main env st) ds (store (loopBody_main env st d c1))
          = decisions (loopBody env st) ds (store (loopBody env st d c2))"
        by simp
      with None s show ?thesis by (simp add: Let_def)
    qed
  qed
qed

lemma related_empty: "related E cachesvr cachesvr"
  by (simp add: related_def cachesvr_def New_def)

text \<open>
  Claim C10 as stated fails on the code. On two readiness failures of one pod against two
  addresses the loop of \<^verbatim>\<open>src/main.go\<close> notifies twice and the loop of
  \<^verbatim>\<open>src/unnamed/part_000\<close> notifies once.
\<close>

theorem C10_listings_counterexample:
  "decisions
     (loopBody_main
        \<lparr>OPENSHIFT_CONSOLE_URL = ''https://console.example.org/'',
         SLACK_WEBHOOK_URL = ''https://hooks.slack.com/services/T0/B0/X0''\<rparr>
        0)
     [\<lparr>object = EventObject
         \<lparr>InvolvedObject = \<lparr>Kind = ''Pod'', Namespace = ''ns1'', Name = ''app-abc123''\<rparr>,
          Reason = ''Unhealthy'',
          Message = ''Readiness probe failed: Get http://10.1.2.3:8080/healthz: dial tcp: timeout'',
          FirstTimestamp = 10\<rparr>,
       getTime = 20, setTime = 21,
       http = \<lparr>marshalErr = None, newRequestErr = None, doErr = None\<rparr>\<rparr>,
      \<lparr>object = EventObject
         \<lparr>InvolvedObject = \<lparr>Kind = ''Pod'', Namespace = ''ns1'', Name = ''app-abc123''\<rparr>,
          Reason = ''Unhealthy'',
          Message = ''Readiness probe failed: Get http://10.9.9.9:9090/healthz: connection refused'',
          FirstTimestamp = 11\<rparr>,
       getTime = 22, setTime = 23,
       http = \<lparr>marshalErr = None, newRequestErr = None, doErr = None\<rparr>\<rparr>]
     cachesvr
   = [True, True]
   \<and> decisions
     (loopBody
        \<lparr>OPENSHIFT_CONSOLE_URL = ''https://console.example.org/'',
         SLACK_WEBHOOK_URL = ''https://hooks.slack.com/services/T0/B0/X0''\<rparr>
        0)
     [\<lparr>object = EventObject
         \<lparr>InvolvedObject = \<lparr>Kind = ''Pod'', Namespace = ''ns1'', Name = ''app-abc123''\<rparr>,
          Reason = ''Unhealthy'',
          Message = ''Readiness probe failed: Get http://10.1.2.3:8080/healthz: dial tcp: timeout'',
          FirstTimestamp = 10\<rparr>,
       getTime = 20, setTime = 21,
       http = \<lparr>marshalErr = None, newRequestErr = None, doErr = None\<rparr>\<rparr>,
      \<lparr>object = EventObject
         \<lparr>InvolvedObject = \<lparr>Kind = ''Pod'', Namespace = ''ns1'', Name = ''app-abc123''\<rparr>,
          Reason = ''Unhealthy'',
          Message = ''Readiness probe failed: Get http://10.9.9.9:9090/healthz: connection refused'',
          FirstTimestamp = 11\<rparr>,
       getTime = 22, setTime = 23,
       http = \<lparr>marshalErr = None, newRequestErr = None, doErr = None\<rparr>\<rparr>]
     cachesvr
   = [True, False]"
  by code_simp

text \<open>
  Claim C10, as amended. The claim lets the loop of \<^verbatim>\<open>src/main.go\<close> and the loop of
  \<^verbatim>\<open>src/unnamed/part_000\<close> decide alike on every sequence of events. They do not: two
  probe failures that differ in the address only are two messages and one fingerprint.
  Started from the empty cache on the same deliveries, the two listings decide alike at every
  step when any two events of the sequence have the same fingerprint exactly when they
  have the same message; this is so, for one, when all events have the same namespace and
  the same first piece of the name and no message begins with \<open>Readiness\<close> or
  \<open>Liveness\<close>.
\<close>

theorem C10_listings:
  "((\<forall>d \<in> set ds. \<forall>d' \<in> set ds.
       (case (object d, object d') of
          (EventObject e, EventObject e') \<Rightarrow>
            (buildCachedEvent e = buildCachedEvent e') = (Message e = Message e')
        | _ \<Rightarrow> True))
    \<longrightarrow> decisions (loopBody_main env st) ds cachesvr
        = decisions (loopBody env st) ds cachesvr)
   \<and> ((\<forall>d \<in> set ds. \<exists>e. object d = EventObject e
          \<and> Namespace (InvolvedObject e) = ns
          \<and> takeWhile (\<lambda>x. x \<noteq> CHR ''-'') (Name (InvolvedObject e)) = seg
          \<and> \<not> HasPrefix (Message e) ''Readiness'' \<and> \<not> HasPrefix (Message e) ''Liveness'')
    \<longrightarrow> decisions (loopBody_main env st) ds cachesvr
        = decisions (loopBody env st) ds cachesvr)"
proof (intro conjI impI)
  assume h: "\<forall>d \<in> set ds. \<forall>d' \<in> set ds.
       (case (object d, object d') of
          (EventObject e, EventObject e') \<Rightarrow>
            (buildCachedEvent e = buildCachedEvent e') = (Message e = Message e')
        | _ \<Rightarrow> True)"
  let ?E = "{e. \<exists>d \<in> set ds. object d = EventObject e}"
  have pw: "\<forall>a \<in> ?E. \<forall>b \<in> ?E.
      (buildCachedEvent a = buildCachedEvent b) = (Message a = Message b)"
  proof (intro ballI)
    fix a b
    assume "a \<in> ?E" "b \<in> ?E"
    then obtain d d' where "d \<in> set ds" "object d = EventObject a"
      "d' \<in> set ds" "object d' = EventObject b"
      by blast
    with h [rule_format, of d d']
    show "(buildCachedEvent a = buildCachedEvent b) = (Message a = Message b)"
      by simp
  qed
  have mem: "\<forall>d \<in> set ds. \<forall>e. object d = EventObject e \<longrightarrow> e \<in> ?E" by blast
  from decisions_same [OF related_empty mem pw]
  show "decisions (loopBody_main env st) ds cachesvr = decisions (loopBody env st) ds cachesvr" .
next
  assume h: "\<forall>d \<in> set ds. \<exists>e. object d = EventObject e
          \<and> Namespace (InvolvedObject e) = ns
          \<and> takeWhile (\<lambda>x. x \<noteq> CHR ''-'') (Name (InvolvedObject e)) = seg
          \<and> \<not> HasPrefix (Message e) ''Readiness'' \<and> \<not> HasPrefix (Message e) ''Liveness''"
  let ?E = "{e. \<exists>d \<in> set ds. object d = EventObject e}"
  have fp: "buildCachedEvent e = Inr (ns @ ''_'' @ seg @ ''_'' @ Message e)" if "e \<in> ?E" for e
  proof -
    from that h have "Namespace (InvolvedObject e) = ns"
      "takeWhile (\<lambda>x. x \<noteq> CHR ''-'') (Name (InvolvedObject e)) = seg"
      "\<not> HasPrefix (Message e) ''Readiness''" "\<not> HasPrefix (Message e) ''Liveness''"
      by fastforce+
    then show ?thesis by (simp add: buildCachedEvent_def msgc_plain)
  qed
  have pw: "\<forall>a \<in> ?E. \<forall>b \<in> ?E.
      (buildCachedEvent a = buildCachedEvent b) = (Message a = Message b)"
  proof (intro ballI)
    fix a b
    assume "a \<in> ?E" "b \<in> ?E"
    then show "(buildCachedEvent a = buildCachedEvent b) = (Message a = Message b)"
      by (simp only: fp sum.inject same_append_eq list.inject simp_thms)
  qed
  have mem: "\<forall>d \<in> set ds. \<forall>e. object d = EventObject e \<longrightarrow> e \<in> ?E" by blast
  from decisions_same [OF related_empty mem pw]
  show "decisions (loopBody_main env st) ds cachesvr = decisions (loopBody env st) ds cachesvr" .
qed

theorem C10_listings_witness:
  "decisions (loopBody_main
        \<lparr>OPENSHIFT_CONSOLE_URL = ''https://console.example.org/'',
         SLACK_WEBHOOK_URL = ''https://hooks.slack.com/services/T0/B0/X0''\<rparr> 0)
     [\<lparr>object = EventObject
         \<lparr>InvolvedObject = \<lparr>Kind = ''Pod'', Namespace = ''ns1'', Name = ''app-abc123''\<rparr>,
          Reason = ''BackOff'', Message = ''CrashLoopBackOff'', FirstTimestamp = 10\<rparr>,
       getTime = 20, setTime = 21,
       http = \<lparr>marshalErr = None, newRequestErr = None, doErr = None\<rparr>\<rparr>,
      \<lparr>object = EventObject
         \<lparr>InvolvedObject = \<lparr>Kind = ''Pod'', Namespace = ''ns1'', Name = ''app-abc123''\<rparr>,
          Reason = ''BackOff'', Message = ''CrashLoopBackOff'', FirstTimestamp = 11\<rparr>,
       getTime = 22, setTime = 23,
       http = \<lparr>marshalErr = None, newRequestErr = None, doErr = None\<rparr>\<rparr>,
      \<lparr>object = EventObject
         \<lparr>InvolvedObject = \<lparr>Kind = ''Pod'', Namespace = ''ns1'', Name = ''app-abc123''\<rparr>,
          Reason = ''Killing'', Message = ''OOMKilled'', FirstTimestamp = 12\<rparr>,
       getTime = 24, setTime = 25,
       http = \<lparr>marshalErr = None, newRequestErr = None, doErr = None\<rparr>\<rparr>]
     cachesvr
   = decisions (loopBody
        \<lparr>OPENSHIFT_CONSOLE_URL = ''https://console.example.org/'',
         SLACK_WEBHOOK_URL = ''https://hooks.slack.com/services/T0/B0/X0''\<rparr> 0)
     [\<lparr>object = EventObject
         \<lparr>InvolvedObject = \<lparr>Kind = ''Pod'', Namespace = ''ns1'', Name = ''app-abc123''\<rparr>,
          Reason = ''BackOff'', Message = ''CrashLoopBackOff'', FirstTimestamp = 10\<rparr>,
       getTime = 20, setTime = 21,
       http = \<lparr>marshalErr = None, newRequestErr = None, doErr = None\<rparr>\<rparr>,
      \<lparr>object = EventObject
         \<lparr>InvolvedObject = \<lparr>Kind = ''Pod'', Namespace = ''ns1'', Name = ''app-abc123''\<rparr>,
          Reason = ''BackOff'', Message = ''CrashLoopBackOff'', FirstTimestamp = 11\<rparr>,
       getTime = 22, setTime = 23,
       http = \<lparr>marshalErr = None, newRequestErr = None, doErr = None\<rparr>\<rparr>,
      \<lparr>object = EventObject
         \<lparr>InvolvedObject = \<lparr>Kind = ''Pod'', Namespace = ''ns1'', Name = ''app-abc123''\<rparr>,
          Reason = ''Killing'', Message = ''OOMKilled'', FirstTimestamp = 12\<rparr>,
       getTime = 24, setTime = 25,
       http = \<lparr>marshalErr = None, newRequestErr = None, doErr = None\<rparr>\<rparr>]
     cachesvr
   \<and> decisions (loopBody
        \<lparr>OPENSHIFT_CONSOLE_URL = ''https://console.example.org/'',
         SLACK_WEBHOOK_URL = ''https://hooks.slack.com/services/T0/B0/X0''\<rparr> 0)
     [\<lparr>object = EventObject
         \<lparr>InvolvedObject = \<lparr>Kind = ''Pod'', Namespace = ''ns1'', Name = ''app-abc123''\<rparr>,
          Reason = ''BackOff'', Message = ''CrashLoopBackOff'', FirstTimestamp = 10\<rparr>,
       getTime = 20, setTime = 21,
       http = \<lparr>marshalErr = None, newRequestErr = None, doErr = None\<rparr>\<rparr>,
      \<lparr>object = EventObject
         \<lparr>InvolvedObject = \<lparr>Kind = ''Pod'', Namespace = ''ns1'', Name = ''app-abc123''\<rparr>,
          Reason = ''BackOff'', Message = ''CrashLoopBackOff'', FirstTimestamp = 11\<rparr>,
       getTime = 22, setTime = 23,
       http = \<lparr>marshalErr = None, newRequestErr = None, doErr = None\<rparr>\<rparr>,
      \<lparr>object = EventObject
         \<lparr>InvolvedObject = \<lparr>Kind = ''Pod'', Namespace = ''ns1'', Name = ''app-abc123''\<rparr>,
          Reason = ''Killing'', Message = ''OOMKilled'', FirstTimestamp = 12\<rparr>,
       getTime = 24, setTime = 25,
       http = \<lparr>marshalErr = None, newRequestErr = None, doErr = None\<rparr>\<rparr>]
     cachesvr
   = [True, False, True]
   \<and> decisions (loopBody_main
        \<lparr>OPENSHIFT_CONSOLE_URL = ''https://console.example.org/'',
         SLACK_WEBHOOK_URL = ''https://hooks.slack.com/services/T0/B0/X0''\<rparr> 0)
     [\<lparr>object = EventObject
         \<lparr>InvolvedObject = \<lparr>Kind = ''Pod'', Namespace = ''ns1'', Name = ''web-1''\<rparr>,
          Reason = ''Failed'', Message = ''ImagePullBackOff'', FirstTimestamp = 10\<rparr>,
       getTime = 20, setTime = 21,
       http = \<lparr>marshalErr = None, newRequestErr = None, doErr = None\<rparr>\<rparr>,
      \<lparr>object = EventObject
         \<lparr>InvolvedObject = \<lparr>Kind = ''Pod'', Namespace = ''ns2'', Name = ''db-0''\<rparr>,
          Reason = ''Unhealthy'',
          Message = ''Liveness probe failed: Get http://10.0.0.7:8080/live: EOF'',
          FirstTimestamp = 11\<rparr>,
       getTime = 22, setTime = 23,
       http = \<lparr>marshalErr = None, newRequestErr = None, doErr = None\<rparr>\<rparr>]
     cachesvr
   = decisions (loopBody
        \<lparr>OPENSHIFT_CONSOLE_URL = ''https://console.example.org/'',
         SLACK_WEBHOOK_URL = ''https://hooks.slack.com/services/T0/B0/X0''\<rparr> 0)
     [\<lparr>object = EventObject
         \<lparr>InvolvedObject = \<lparr>Kind = ''Pod'', Namespace = ''ns1'', Name = ''web-1''\<rparr>,
          Reason = ''Failed'', Message = ''ImagePullBackOff'', FirstTimestamp = 10\<rparr>,
       getTime = 20, setTime = 21,
       http = \<lparr>marshalErr = None, newRequestErr = None, doErr = None\<rparr>\<rparr>,
      \<lparr>object = EventObject
         \<lparr>InvolvedObject = \<lparr>Kind = ''Pod'', Namespace = ''ns2'', Name = ''db-0''\<rparr>,
          Reason = ''Unhealthy'',
          Message = ''Liveness probe failed: Get http://10.0.0.7:8080/live: EOF'',
          FirstTimestamp = 11\<rparr>,
       getTime = 22, setTime = 23,
       http = \<lparr>marshalErr = None, newRequestErr = None, doErr = None\<rparr>\<rparr>]
     cachesvr"
proof -
  let ?env = "\<lparr>OPENSHIFT_CONSOLE_URL = ''https://console.example.org/'',
         SLACK_WEBHOOK_URL = ''https://hooks.slack.com/services/T0/B0/X0''\<rparr>"
  let ?abc = "[\<lparr>object = EventObject
         \<lparr>InvolvedObject = \<lparr>Kind = ''Pod'', Namespace = ''ns1'', Name = ''app-abc123''\<rparr>,
          Reason = ''BackOff'', Message = ''CrashLoopBackOff'', FirstTimestamp = 10\<rparr>,
       getTime = 20, setTime = 21,
       http = \<lparr>marshalErr = None, newRequestErr = None, doErr = None\<rparr>\<rparr>,
      \<lparr>object = EventObject
         \<lparr>InvolvedObject = \<lparr>Kind = ''Pod'', Namespace = ''ns1'', Name = ''app-abc123''\<rparr>,
          Reason = ''BackOff'', Message = ''CrashLoopBackOff'', FirstTimestamp = 11\<rparr>,
       getTime = 22, setTime = 23,
       http = \<lparr>marshalErr = None, newRequestErr = None, doErr = None\<rparr>\<rparr>,
      \<lparr>object = EventObject
         \<lparr>InvolvedObject = \<lparr>Kind = ''Pod'', Namespace = ''ns1'', Name = ''app-abc123''\<rparr>,
          Reason = ''Killing'', Message = ''OOMKilled'', FirstTimestamp = 12\<rparr>,
       getTime = 24, setTime = 25,
       http = \<lparr>marshalErr = None, newRequestErr = None, doErr = None\<rparr>\<rparr>]"
  let ?xy = "[\<lparr>object = EventObject
         \<lparr>InvolvedObject = \<lparr>Kind = ''Pod'', Namespace = ''ns1'', Name = ''web-1''\<rparr>,
          Reason = ''Failed'', Message = ''ImagePullBackOff'', FirstTimestamp = 10\<rparr>,
       getTime = 20, setTime = 21,
       http = \<lparr>marshalErr = None, newRequestErr = None, doErr = None\<rparr>\<rparr>,
      \<lparr>object = EventObject
         \<lparr>InvolvedObject = \<lparr>Kind = ''Pod'', Namespace = ''ns2'', Name = ''db-0''\<rparr>,
          Reason = ''Unhealthy'',
          Message = ''Liveness probe failed: Get http://10.0.0.7:8080/live: EOF'',
          FirstTimestamp = 11\<rparr>,
       getTime = 22, setTime = 23,
       http = \<lparr>marshalErr = None, newRequestErr = None, doErr = None\<rparr>\<rparr>]"
  have h2: "\<forall>d \<in> set ?abc. \<exists>e. object d = EventObject e
          \<and> Namespace (InvolvedObject e) = ''ns1''
          \<and> takeWhile (\<lambda>x. x \<noteq> CHR ''-'') (Name (InvolvedObject e)) = ''app''
          \<and> \<not> HasPrefix (Message e) ''Readiness'' \<and> \<not> HasPrefix (Message e) ''Liveness''"
    by (simp add: HasPrefix_def)
  from C10_listings [where ds = ?abc and ns = "''ns1''" and seg = "''app''" and env = ?env
      and st = 0, THEN conjunct2, THEN mp, OF h2]
  have a: "decisions (loopBody_main ?env 0) ?abc cachesvr
      = decisions (loopBody ?env 0) ?abc cachesvr" .
  have b: "decisions (loopBody ?env 0) ?abc cachesvr = [True, False, True]"
    by code_simp
  have h1: "\<forall>d \<in> set ?xy. \<forall>d' \<in> set ?xy.
       (case (object d, object d') of
          (EventObject e, EventObject e') \<Rightarrow>
            (buildCachedEvent e = buildCachedEvent e') = (Message e = Message e')
        | _ \<Rightarrow> True)"
    by code_simp
  from C10_listings [where ds = ?xy and env = ?env and st = 0, THEN conjunct1, THEN mp, OF h1]
  have c: "decisions (loopBody_main ?env 0) ?xy cachesvr
      = decisions (loopBody ?env 0) ?xy cachesvr" .
  from a b c show ?thesis by blast
qed

end
